theory Spec2Isabelle
  imports Complex_Main
begin

section \<open>SynapseFlow: neuron models and spike-train utilities\<close>

text \<open>
  A shallow embedding of \<^verbatim>\<open>synapseflow/neuron_models\<close>: the parameter dataclass
  (\<^verbatim>\<open>neuron_parameters.py\<close>), the base model (\<^verbatim>\<open>base_model.py\<close>), the LIF and AELIF
  models (\<^verbatim>\<open>lif_model.py\<close>) and the analysis functions of \<^verbatim>\<open>utils.py\<close>.

  Numbers. Python floats and NumPy \<^verbatim>\<open>float64\<close> values are modelled as exact reals: rounding,
  signed zeros, infinities and NaN are not part of the model, except where a property
  turns on them: the \<^verbatim>\<open>-np.inf\<close> of the last spike time, NumPy's division by zero in the
  Fano factor, a non-finite or NumPy-typed \<open>R_m\<close> at construction, and the sign of a
  zero in the voltage trace, which have types of their own below. The properties of the
  simulation loops assume nonzero divisors, since NumPy's division by zero gives an
  infinity or NaN where division on the reals gives a number.
  Python's own float division raises \<^verbatim>\<open>ZeroDivisionError\<close> on a zero divisor and is
  modelled as such. Python's \<^verbatim>\<open>int\<close> is \<open>int\<close>. A NumPy array of one dimension is a list;
  an index out of range raises \<^verbatim>\<open>IndexError\<close> in the source and is a branch of the model.
\<close>

subsection \<open>Exceptions\<close>

datatype py_error =
  ZeroDivisionError | NotImplementedError | IndexError | TypeError | ValueError | AttributeError

text \<open>
  A method that mutates \<^verbatim>\<open>self\<close> either returns, or raises after some of its assignments
  have been made. Both outcomes carry the state of the object at that moment.
\<close>

datatype 's outcome = Returned 's | Raised py_error 's

fun state_of :: "'s outcome \<Rightarrow> 's" where
  "state_of (Returned s) = s"
| "state_of (Raised e s) = s"

text \<open>\<^verbatim>\<open>for i in idx: body(i)\<close>: the body runs for each index in order and the first
  exception ends the loop.\<close>

fun run_steps :: "(nat \<Rightarrow> 's \<Rightarrow> 's outcome) \<Rightarrow> nat list \<Rightarrow> 's \<Rightarrow> 's outcome" where
  "run_steps body [] s = Returned s"
| "run_steps body (i # idx) s =
     (case body i s of
        Returned s' \<Rightarrow> run_steps body idx s'
      | Raised e s' \<Rightarrow> Raised e s')"

text \<open>Python's \<^verbatim>\<open>x / y\<close> on floats.\<close>

definition py_truediv :: "real \<Rightarrow> real \<Rightarrow> py_error + real" where
  "py_truediv x y = (if y = 0 then Inl ZeroDivisionError else Inr (x / y))"

text \<open>Python's \<^verbatim>\<open>int(x)\<close> on a float: truncation towards zero.\<close>

definition py_int :: "real \<Rightarrow> int" where
  "py_int x = (if 0 \<le> x then \<lfloor>x\<rfloor> else \<lceil>x\<rceil>)"

text \<open>
  A \<^verbatim>\<open>float64\<close> that may be infinite: \<^verbatim>\<open>last_spike_time\<close> starts at \<^verbatim>\<open>-np.inf\<close>, and NumPy
  division by zero gives an infinity or NaN.
\<close>

datatype npfloat = Finite real | PosInf | NegInf | NaN

text \<open>\<^verbatim>\<open>t - x\<close> for a finite \<open>t\<close>.\<close>

fun np_sub :: "real \<Rightarrow> npfloat \<Rightarrow> npfloat" where
  "np_sub t (Finite x) = Finite (t - x)"
| "np_sub t PosInf = NegInf"
| "np_sub t NegInf = PosInf"
| "np_sub t NaN = NaN"

subsection \<open>\<^verbatim>\<open>neuron_parameters.py\<close>: the parameter dataclass\<close>

text \<open>
  The dataclass fields, in the order of the source. An \<^verbatim>\<open>Optional[float]\<close> field is an
  option, \<^verbatim>\<open>None\<close> by default. The fields \<^verbatim>\<open>a\<close> and \<^verbatim>\<open>b\<close> of the source are
  \<open>a_param\<close> and \<open>b_param\<close> here.
\<close>

record NeuronParameters_fields =
  C_m :: real
  E_L :: real
  E_K :: real
  R_m :: real
  V_th :: real
  V_reset :: real
  V_peak :: "real option"
  tau_vc :: "real option"
  tau_vth :: "real option"
  V_th_max :: "real option"
  tau_G_ref :: "real option"
  G_SRA :: "real option"
  Delta_G_SRA :: "real option"
  tau_SRA :: "real option"
  V_max :: "real option"
  Delta_th :: "real option"
  a_param :: "real option"
  b_param :: "real option"

text \<open>The object after \<^verbatim>\<open>__post_init__\<close>: the fields and the three derived attributes.\<close>

record NeuronParameters = NeuronParameters_fields +
  G_L :: real
  tau_m :: real
  I_th :: real

text \<open>
  \<^verbatim>\<open>NeuronParameters.__post_init__\<close> (lines 76 to 89). The three assignments run in order;
  the first two divide Python floats and can raise, in which case the constructor raises
  and no object exists. The arguments are finite plain Python floats here; other values
  of \<open>R_m\<close> are taken up after the definition.
\<close>

definition NeuronParameters_post_init :: "NeuronParameters_fields \<Rightarrow> py_error + NeuronParameters" where
  "NeuronParameters_post_init self =
     (case py_truediv 1 (R_m self) of
        Inl e \<Rightarrow> Inl e
      | Inr g \<Rightarrow>
          (case py_truediv (C_m self) g of
             Inl e \<Rightarrow> Inl e
           | Inr t \<Rightarrow>
               Inr (NeuronParameters_fields.extend self
                      (NeuronParameters.fields g t (g * (V_th self - E_L self))))))"

text \<open>
  The same two lines for an \<open>R_m\<close> that need not be a finite Python float: it may be
  infinite or NaN, and it may be a NumPy scalar (\<^verbatim>\<open>np.float64\<close>) instead of a plain
  \<^verbatim>\<open>float\<close>. \<open>np_reciprocal\<close> is the value of \<^verbatim>\<open>1.0 / R_m\<close> where that does not raise.
  \<open>NeuronParameters_raises\<close> is what the constructor raises, \<open>C_m\<close> being a plain float:
  on plain floats line 87 raises for a zero \<open>R_m\<close> and line 88 for a zero \<open>G_L\<close>; on
  NumPy scalars neither division raises.
\<close>

datatype float_kind = PlainFloat | NumpyFloat64

fun np_reciprocal :: "npfloat \<Rightarrow> npfloat" where
  "np_reciprocal (Finite x) = (if x = 0 then PosInf else Finite (1 / x))"
| "np_reciprocal PosInf = Finite 0"
| "np_reciprocal NegInf = Finite 0"
| "np_reciprocal NaN = NaN"

definition NeuronParameters_raises :: "float_kind \<Rightarrow> npfloat \<Rightarrow> py_error option" where
  "NeuronParameters_raises kind r =
     (case kind of
        NumpyFloat64 \<Rightarrow> None
      | PlainFloat \<Rightarrow>
          if r = Finite 0 then Some ZeroDivisionError
          else if np_reciprocal r = Finite 0 then Some ZeroDivisionError
          else None)"

subsection \<open>\<^verbatim>\<open>base_model.py\<close>: the base model\<close>

text \<open>
  The dataclass \<^verbatim>\<open>BaseNeuronModel\<close>. The field \<^verbatim>\<open>times\<close> of the source is \<open>times_grid\<close>
  here. The arrays \<^verbatim>\<open>times\<close> and \<^verbatim>\<open>I\<close> are the caller's; \<^verbatim>\<open>V\<close> is allocated by
  \<^verbatim>\<open>np.zeros_like\<close> in \<^verbatim>\<open>__post_init__\<close>, so it shares no storage with them and the state
  can be passed as a record of values.
\<close>

record BaseNeuronModel =
  neuron_parameters :: NeuronParameters
  times_grid :: "real list"
  I :: "real list"
  V :: "real list"
  dt :: real
  num_fire :: int

text \<open>
  \<^verbatim>\<open>BaseNeuronModel.__post_init__\<close> (lines 29 to 37) computes \<^verbatim>\<open>V\<close> and \<^verbatim>\<open>dt\<close>.
  \<^verbatim>\<open>self.V[0] = ...\<close> raises on an empty grid and \<^verbatim>\<open>self.times[1]\<close> on a grid of one point.
\<close>

definition BaseNeuronModel_post_init ::
    "NeuronParameters \<Rightarrow> real list \<Rightarrow> py_error + real list \<times> real" where
  "BaseNeuronModel_post_init p ts =
     (if length ts = 0 then Inl IndexError
      else if length ts \<le> 1 then Inl IndexError
      else Inr ((replicate (length ts) 0)[0 := E_L p], ts ! 1 - ts ! 0))"

text \<open>\<^verbatim>\<open>self.V[i] = v\<close> on a NumPy array.\<close>

definition store_V :: "nat \<Rightarrow> real \<Rightarrow> 'a BaseNeuronModel_scheme \<Rightarrow> 'a BaseNeuronModel_scheme outcome" where
  "store_V i v self =
     (if length (V self) \<le> i then Raised IndexError self
      else Returned (self\<lparr>V := (V self)[i := v]\<rparr>))"

subsection \<open>The class hierarchy and method lookup\<close>

text \<open>
  The three classes, their base classes and the names each class body defines with
  \<^verbatim>\<open>def\<close>, as written in the source. Python looks a method up by its exact name along the
  method resolution order.
\<close>

datatype py_class = Cls_BaseNeuronModel | Cls_LIFModel | Cls_AELIFModel

fun mro :: "py_class \<Rightarrow> py_class list" where
  "mro Cls_BaseNeuronModel = [Cls_BaseNeuronModel]"
| "mro Cls_LIFModel = [Cls_LIFModel, Cls_BaseNeuronModel]"
| "mro Cls_AELIFModel = [Cls_AELIFModel, Cls_LIFModel, Cls_BaseNeuronModel]"

fun own_methods :: "py_class \<Rightarrow> string list" where
  "own_methods Cls_BaseNeuronModel = [''__post_init__'', ''fire_rate'', ''dVdt'', ''simulate'']"
| "own_methods Cls_LIFModel = [''__post_init__'', ''dvdt'', ''simulate'']"
| "own_methods Cls_AELIFModel = [''__post_init__'', ''dI_SRA_dt'', ''dvdt'', ''simulate'']"

definition lookup_method :: "py_class \<Rightarrow> string \<Rightarrow> py_class option" where
  "lookup_method c name = find (\<lambda>k. name \<in> set (own_methods k)) (mro c)"

text \<open>
  The bodies that only raise: \<^verbatim>\<open>BaseNeuronModel.dVdt\<close> and \<^verbatim>\<open>BaseNeuronModel.simulate\<close>
  (lines 50 to 68).
\<close>

fun body_raises :: "py_class \<Rightarrow> string \<Rightarrow> py_error option" where
  "body_raises Cls_BaseNeuronModel name =
     (if name = ''dVdt'' \<or> name = ''simulate'' then Some NotImplementedError else None)"
| "body_raises c name = None"

text \<open>
  Calling \<^verbatim>\<open>obj.name(...)\<close> on an instance of class \<open>c\<close>: \<open>Inl e\<close> when the call raises
  \<open>e\<close> before computing anything (no such attribute, or a body that only raises), and
  \<open>Inr k\<close> when the body defined in class \<open>k\<close> runs.
\<close>

definition call_method :: "py_class \<Rightarrow> string \<Rightarrow> py_error + py_class" where
  "call_method c name =
     (case lookup_method c name of
        None \<Rightarrow> Inl AttributeError
      | Some k \<Rightarrow> (case body_raises k name of Some e \<Rightarrow> Inl e | None \<Rightarrow> Inr k))"

subsection \<open>\<^verbatim>\<open>lif_model.py\<close>: the LIF model\<close>

text \<open>
  \<^verbatim>\<open>LIFModel\<close> adds \<^verbatim>\<open>noise_sigma\<close> and \<^verbatim>\<open>noises\<close>. \<^verbatim>\<open>simulate\<close> tests
  \<^verbatim>\<open>isinstance(self.noises, np.ndarray)\<close>: \<open>Some\<close> is an array, \<open>None\<close> anything else.
  \<^verbatim>\<open>last_fire_time\<close> is an attribute that exists only after the first spike. \<open>stdout\<close>
  is not an attribute: it collects, in order, the times that \<^verbatim>\<open>print\<close> reports.
\<close>

record LIFModel = BaseNeuronModel +
  noise_sigma :: real
  noises :: "real list option"
  last_fire_time :: "real option"
  stdout :: "real list"

text \<open>
  \<^verbatim>\<open>LIFModel(neuron_parameters, times, I, noise_sigma)\<close>: the dataclass constructor followed by
  \<^verbatim>\<open>LIFModel.__post_init__\<close> (lines 30 to 39). \<open>normal k\<close> is the \<open>k\<close>-th draw of
  \<^verbatim>\<open>np.random.normal(size=self.times.shape)\<close>. \<^verbatim>\<open>np.sqrt\<close> of a negative step is NaN in the
  source; the model is meant for grids with \<open>times[0] \<le> times[1]\<close>.
\<close>

definition LIFModel_init ::
    "NeuronParameters \<Rightarrow> real list \<Rightarrow> real list \<Rightarrow> real \<Rightarrow> (nat \<Rightarrow> real) \<Rightarrow> py_error + LIFModel" where
  "LIFModel_init p ts Is sigma normal =
     (case BaseNeuronModel_post_init p ts of
        Inl e \<Rightarrow> Inl e
      | Inr (v, d) \<Rightarrow>
          Inr \<lparr>neuron_parameters = p, times_grid = ts, I = Is, V = v, dt = d, num_fire = 0,
               noise_sigma = sigma,
               noises = Some (map (\<lambda>k. normal k * sigma * sqrt d) [0..<length ts]),
               last_fire_time = None, stdout = []\<rparr>)"

text \<open>\<^verbatim>\<open>LIFModel.dvdt\<close> (lines 41 to 57). NumPy scalars: no division raises.\<close>

definition LIFModel_dvdt :: "'a BaseNeuronModel_scheme \<Rightarrow> real \<Rightarrow> real \<Rightarrow> real" where
  "LIFModel_dvdt self V_m I_app =
     ((E_L (neuron_parameters self) - V_m) / R_m (neuron_parameters self) + I_app)
       / C_m (neuron_parameters self)"

text \<open>
  The body of the loop of \<^verbatim>\<open>LIFModel.simulate\<close> (lines 60 to 78) at index \<open>i\<close>. The loop
  starts at 1, so \<open>i - 1\<close> is never the negative index that Python would count from the
  end. On a spike the counter is incremented and the time printed and stored before
  \<^verbatim>\<open>self.V[i]\<close> is assigned.
\<close>

definition LIFModel_simulate_body :: "nat \<Rightarrow> LIFModel \<Rightarrow> LIFModel outcome" where
  "LIFModel_simulate_body i self =
     (if length (V self) \<le> i - 1 \<or> length (I self) \<le> i - 1 then Raised IndexError self
      else
        let V_new = V self ! (i - 1)
                    + LIFModel_dvdt self (V self ! (i - 1)) (I self ! (i - 1)) * dt self
        in
        (case (case noises self of
                 None \<Rightarrow> Inr V_new
               | Some ns \<Rightarrow> if length ns \<le> i then Inl IndexError else Inr (V_new + ns ! i)) of
           Inl e \<Rightarrow> Raised e self
         | Inr V_new \<Rightarrow>
             if V_new > V_th (neuron_parameters self) then
               (let self1 = self\<lparr>num_fire := num_fire self + 1\<rparr> in
                if length (times_grid self1) \<le> i then Raised IndexError self1
                else
                  let self2 = self1\<lparr>stdout := stdout self1 @ [times_grid self1 ! i],
                                     last_fire_time := Some (times_grid self1 ! i)\<rparr>
                  in store_V i (V_reset (neuron_parameters self2)) self2)
             else store_V i V_new self))"

definition LIFModel_simulate :: "LIFModel \<Rightarrow> LIFModel outcome" where
  "LIFModel_simulate self =
     run_steps LIFModel_simulate_body [1..<length (times_grid self)] self"

subsection \<open>\<^verbatim>\<open>lif_model.py\<close>: the AELIF model\<close>

record AELIFModel = LIFModel +
  I_SRA_array :: "real list"
  last_spike_time :: npfloat
  isi_array :: "npfloat list"
  spike_array :: "real list"

text \<open>
  \<^verbatim>\<open>AELIFModel(neuron_parameters, times, I, noise_sigma, isi_array)\<close>: the constructor and
  \<^verbatim>\<open>AELIFModel.__post_init__\<close>, which runs the LIF one first. The argument \<open>isi\<close> is
  \<open>None\<close> when the caller leaves \<^verbatim>\<open>isi_array\<close> to its default factory, an empty list, and
  \<open>Some\<close> of the list the caller passes otherwise.
\<close>

definition AELIFModel_init ::
    "NeuronParameters \<Rightarrow> real list \<Rightarrow> real list \<Rightarrow> real \<Rightarrow> npfloat list option
       \<Rightarrow> (nat \<Rightarrow> real) \<Rightarrow> py_error + AELIFModel" where
  "AELIFModel_init p ts Is sigma isi normal =
     (case LIFModel_init p ts Is sigma normal of
        Inl e \<Rightarrow> Inl e
      | Inr m \<Rightarrow>
          Inr \<lparr>neuron_parameters = neuron_parameters m, times_grid = times_grid m, I = I m,
               V = V m, dt = dt m, num_fire = num_fire m,
               noise_sigma = noise_sigma m, noises = noises m,
               last_fire_time = last_fire_time m, stdout = stdout m,
               I_SRA_array = replicate (length (times_grid m)) 0,
               last_spike_time = NegInf,
               isi_array = (case isi of None \<Rightarrow> [] | Some given \<Rightarrow> given),
               spike_array = replicate (length (times_grid m)) 0\<rparr>)"

text \<open>
  \<^verbatim>\<open>AELIFModel.dI_SRA_dt\<close> and \<^verbatim>\<open>AELIFModel.dvdt\<close>. The parameters they read are optional;
  arithmetic on \<^verbatim>\<open>None\<close> raises \<^verbatim>\<open>TypeError\<close>.
\<close>

definition AELIFModel_dI_SRA_dt :: "'a BaseNeuronModel_scheme \<Rightarrow> real \<Rightarrow> real \<Rightarrow> py_error + real" where
  "AELIFModel_dI_SRA_dt self V_m I_SRA =
     (case a_param (neuron_parameters self) of
        None \<Rightarrow> Inl TypeError
      | Some a \<Rightarrow>
          (case tau_SRA (neuron_parameters self) of
             None \<Rightarrow> Inl TypeError
           | Some tau \<Rightarrow> Inr ((a * (V_m - E_L (neuron_parameters self)) - I_SRA) / tau)))"

definition AELIFModel_dvdt :: "'a BaseNeuronModel_scheme \<Rightarrow> real \<Rightarrow> real \<Rightarrow> real \<Rightarrow> py_error + real" where
  "AELIFModel_dvdt self V_m I_app I_SRA =
     (case Delta_th (neuron_parameters self) of
        None \<Rightarrow> Inl TypeError
      | Some D \<Rightarrow>
          Inr ((G_L (neuron_parameters self)
                  * (E_L (neuron_parameters self) - V_m
                     + D * exp ((V_m - V_th (neuron_parameters self)) / D))
                - I_SRA + I_app)
               / C_m (neuron_parameters self)))"

text \<open>
  The body of the loop of \<^verbatim>\<open>AELIFModel.simulate\<close> (lines 167 to 194) at index \<open>i\<close>, in
  three parts that run one after the other and are defined last first:
  \<open>AELIFModel_simulate_body\<close> assigns \<^verbatim>\<open>V[i]\<close>, \<open>AELIFModel_update_I_SRA\<close> then assigns
  \<^verbatim>\<open>I_SRA_array[i]\<close>, and \<open>AELIFModel_spike_check\<close> is the \<^verbatim>\<open>if\<close> that ends the body.
  Each assignment is made before the next expression is evaluated, so an exception leaves
  the earlier ones in place.
\<close>

definition AELIFModel_spike_check :: "nat \<Rightarrow> AELIFModel \<Rightarrow> AELIFModel outcome" where
  "AELIFModel_spike_check i self =
     (case V_max (neuron_parameters self) of
        None \<Rightarrow> Raised TypeError self
      | Some vmax \<Rightarrow>
          if V self ! i \<ge> vmax then
            (let self1 = self\<lparr>V := (V self)[i := V_reset (neuron_parameters self)]\<rparr> in
             case b_param (neuron_parameters self1) of
               None \<Rightarrow> Raised TypeError self1
             | Some b \<Rightarrow>
                 let self2 = self1\<lparr>I_SRA_array := (I_SRA_array self1)[i := I_SRA_array self1 ! i + b],
                                    num_fire := num_fire self1 + 1\<rparr>
                 in
                 if length (times_grid self2) \<le> i then Raised IndexError self2
                 else
                   let self3 = self2\<lparr>isi_array := isi_array self2
                                          @ [np_sub (times_grid self2 ! i) (last_spike_time self2)],
                                      last_spike_time := Finite (times_grid self2 ! i)\<rparr>
                   in
                   if length (spike_array self3) \<le> i then Raised IndexError self3
                   else Returned (self3\<lparr>spike_array := (spike_array self3)[i := 1]\<rparr>))
          else Returned self)"

definition AELIFModel_update_I_SRA :: "nat \<Rightarrow> AELIFModel \<Rightarrow> AELIFModel outcome" where
  "AELIFModel_update_I_SRA i self =
     (case AELIFModel_dI_SRA_dt self (V self ! (i - 1)) (I_SRA_array self ! (i - 1)) of
        Inl e \<Rightarrow> Raised e self
      | Inr dI \<Rightarrow>
          if length (I_SRA_array self) \<le> i then Raised IndexError self
          else AELIFModel_spike_check i
                 (self\<lparr>I_SRA_array := (I_SRA_array self)[i := I_SRA_array self ! (i - 1) + dt self * dI]\<rparr>))"

definition AELIFModel_simulate_body :: "nat \<Rightarrow> AELIFModel \<Rightarrow> AELIFModel outcome" where
  "AELIFModel_simulate_body i self =
     (if length (V self) \<le> i - 1 \<or> length (I self) \<le> i - 1 \<or> length (I_SRA_array self) \<le> i - 1
      then Raised IndexError self
      else
        (case AELIFModel_dvdt self (V self ! (i - 1)) (I self ! (i - 1)) (I_SRA_array self ! (i - 1)) of
           Inl e \<Rightarrow> Raised e self
         | Inr dv \<Rightarrow>
             if length (V self) \<le> i then Raised IndexError self
             else AELIFModel_update_I_SRA i
                    (self\<lparr>V := (V self)[i := V self ! (i - 1) + dt self * dv]\<rparr>)))"

definition AELIFModel_simulate :: "AELIFModel \<Rightarrow> AELIFModel outcome" where
  "AELIFModel_simulate self =
     run_steps AELIFModel_simulate_body [1..<length (times_grid self)] self"

subsection \<open>\<^verbatim>\<open>utils.py\<close>: analysis of spike trains\<close>

text \<open>
  NumPy's \<^verbatim>\<open>np.split(ary, sections, axis=0)\<close> with an integer \<^verbatim>\<open>sections\<close>, after its
  source: \<^verbatim>\<open>N % sections\<close> is computed first (Python's \<^verbatim>\<open>%\<close>: a zero divisor raises); a
  nonzero remainder is a \<^verbatim>\<open>ValueError\<close>; \<^verbatim>\<open>array_split\<close> then refuses a number of sections
  that is not positive and cuts the array into consecutive pieces of equal length.
\<close>

definition np_split :: "real list \<Rightarrow> int \<Rightarrow> py_error + real list list" where
  "np_split ary sections =
     (if sections = 0 then Inl ZeroDivisionError
      else if int (length ary) mod sections \<noteq> 0 then Inl ValueError
      else if sections \<le> 0 then Inl ValueError
      else
        let each = length ary div nat sections in
        Inr (map (\<lambda>k. take each (drop (k * each) ary)) [0..<nat sections]))"

text \<open>
  \<^verbatim>\<open>np.mean(a, axis=0)\<close> of the two-dimensional array whose rows are \<open>rows\<close> (all of one
  length): entry \<open>j\<close> is the mean of column \<open>j\<close>.
\<close>

definition np_mean_axis0 :: "real list list \<Rightarrow> real list" where
  "np_mean_axis0 rows =
     (case rows of
        [] \<Rightarrow> []
      | r # _ \<Rightarrow> map (\<lambda>j. (\<Sum>row\<leftarrow>rows. row ! j) / real (length rows)) [0..<length r])"

text \<open>\<^verbatim>\<open>np.sum(a, axis=1)\<close>: one sum per row.\<close>

definition np_sum_axis1 :: "real list list \<Rightarrow> real list" where
  "np_sum_axis1 rows = map sum_list rows"

text \<open>\<^verbatim>\<open>np.mean\<close> and \<^verbatim>\<open>np.var\<close> (population variance) of a non-empty array.\<close>

definition np_mean :: "real list \<Rightarrow> real" where
  "np_mean xs = sum_list xs / real (length xs)"

definition np_var :: "real list \<Rightarrow> real" where
  "np_var xs = np_mean (map (\<lambda>x. (x - np_mean xs)\<^sup>2) xs)"

text \<open>NumPy's \<^verbatim>\<open>x / y\<close> on \<^verbatim>\<open>float64\<close>: a zero divisor gives NaN or an infinity, with a warning.\<close>

definition np_true_divide :: "real \<Rightarrow> real \<Rightarrow> npfloat" where
  "np_true_divide x y =
     (if y = 0 then (if x = 0 then NaN else if 0 < x then PosInf else NegInf)
      else Finite (x / y))"

text \<open>
  \<^verbatim>\<open>expand_bins\<close> (lines 7 to 26), in two parts. \<open>expand_bins_segments\<close> is lines 23 to
  25, from the segment count \<open>sf\<close> that line 22 has computed. \<open>expand_bins\<close> computes
  \<open>sf\<close> from the exact quotient; the source truncates the \<^verbatim>\<open>float64\<close> quotient, which
  rounding can put on the other side of an integer (\<^verbatim>\<open>int(0.3 / 0.1)\<close> is 2), so the two
  counts agree where the float quotient is exact, as for equal steps. A primed name is a
  parameter of the source whose name is also a field above.
\<close>

definition expand_bins_segments :: "real list \<Rightarrow> int \<Rightarrow> py_error + real list" where
  "expand_bins_segments spike_array' sf =
     (case np_split spike_array' sf of
        Inl e \<Rightarrow> Inl e
      | Inr segments \<Rightarrow> Inr (np_mean_axis0 segments))"

definition expand_bins :: "real list \<Rightarrow> real \<Rightarrow> real \<Rightarrow> py_error + real list" where
  "expand_bins spike_array' new_dt old_dt =
     (case py_truediv new_dt old_dt of
        Inl e \<Rightarrow> Inl e
      | Inr q \<Rightarrow> expand_bins_segments spike_array' (py_int q))"

text \<open>
  \<^verbatim>\<open>find_fano_factor\<close> (lines 74 to 106): \<open>find_fano_factor_windows\<close> is lines 92 to
  106, and the count \<open>num_steps_per_window\<close> that line 90 computes as the truncated
  \<^verbatim>\<open>float64\<close> quotient \<^verbatim>\<open>int(time_range / dt)\<close> is its parameter. \<open>None\<close> is Python's
  \<^verbatim>\<open>None\<close>.
\<close>

definition find_fano_factor_windows :: "int \<Rightarrow> real list \<Rightarrow> py_error + npfloat option" where
  "find_fano_factor_windows num_steps_per_window spike_locations =
     (if num_steps_per_window = 0 then Inl ZeroDivisionError
      else if int (length spike_locations) mod num_steps_per_window \<noteq> 0 then Inr None
      else
        (case np_split spike_locations num_steps_per_window of
           Inl e \<Rightarrow> Inl e
         | Inr spike_windows \<Rightarrow>
             let spike_counts = np_sum_axis1 spike_windows in
             Inr (Some (np_true_divide (np_var spike_counts) (np_mean spike_counts)))))"

text \<open>
  The windows as the specification words them, to compare \<open>find_fano_factor_windows\<close> with: the
  array is cut into \<open>w\<close> consecutive windows of equal length and \<open>spec_window_counts\<close>
  lists the sum of each.
\<close>

definition spec_window_counts :: "real list \<Rightarrow> nat \<Rightarrow> real list" where
  "spec_window_counts xs w =
     map (\<lambda>i. \<Sum>j<length xs div w. xs ! (i * (length xs div w) + j)) [0..<w]"

subsection \<open>The sign of a zero\<close>

text \<open>
  A \<^verbatim>\<open>float64\<close> has two zeros, equal under \<^verbatim>\<open>==\<close> and different in one bit. \<open>Zero True\<close> is
  \<^verbatim>\<open>-0.0\<close>, \<open>Zero False\<close> is \<^verbatim>\<open>0.0\<close>, and \<open>Nonzero x\<close> is a finite nonzero value. The
  operations are those of IEEE arithmetic where they are exact: a sum of two zeros is
  \<^verbatim>\<open>-0.0\<close> only if both are, an exact sum of opposite numbers is \<^verbatim>\<open>0.0\<close>, and a zero
  multiplied or divided by a nonzero number takes the product of the signs.
\<close>

datatype f64 = Zero bool | Nonzero real

fun f64_neg :: "f64 \<Rightarrow> f64" where
  "f64_neg (Zero s) = Zero (\<not> s)"
| "f64_neg (Nonzero x) = Nonzero (- x)"

fun f64_add :: "f64 \<Rightarrow> f64 \<Rightarrow> f64" where
  "f64_add (Zero s) (Zero t) = Zero (s \<and> t)"
| "f64_add (Zero s) (Nonzero y) = Nonzero y"
| "f64_add (Nonzero x) (Zero t) = Nonzero x"
| "f64_add (Nonzero x) (Nonzero y) = (if x + y = 0 then Zero False else Nonzero (x + y))"

definition f64_sub :: "f64 \<Rightarrow> f64 \<Rightarrow> f64" where
  "f64_sub x y = f64_add x (f64_neg y)"

text \<open>Multiplication and division by a nonzero number \<open>c\<close>.\<close>

fun f64_mul :: "f64 \<Rightarrow> real \<Rightarrow> f64" where
  "f64_mul (Zero s) c = Zero (s \<noteq> (c < 0))"
| "f64_mul (Nonzero x) c = Nonzero (x * c)"

fun f64_div :: "f64 \<Rightarrow> real \<Rightarrow> f64" where
  "f64_div (Zero s) c = Zero (s \<noteq> (c < 0))"
| "f64_div (Nonzero x) c = Nonzero (x / c)"

text \<open>
  An entry of the noise array for \<open>noise_sigma = 0.0\<close> and a positive step (line 35 to
  39): \<^verbatim>\<open>draw * 0.0 * np.sqrt(dt)\<close> is a zero with the sign of the draw.
\<close>

definition noise_entry_sigma0 :: "real \<Rightarrow> f64" where
  "noise_entry_sigma0 draw = Zero (draw < 0)"

text \<open>
  The value \<^verbatim>\<open>V_new\<close> of lines 67 to 70 with the signs of zeros kept, for nonzero
  \<open>R_m\<close>, \<open>C_m\<close> and \<open>dt\<close>: the Euler step from \<open>V_prev\<close> and \<open>I_prev\<close>, then the noise.
\<close>

definition LIFModel_V_new_bits :: "f64 \<Rightarrow> real \<Rightarrow> real \<Rightarrow> real \<Rightarrow> f64 \<Rightarrow> f64 \<Rightarrow> f64 \<Rightarrow> f64" where
  "LIFModel_V_new_bits E_L' R_m' C_m' dt' V_prev I_prev noise =
     f64_add
       (f64_add V_prev
          (f64_mul (f64_div (f64_add (f64_div (f64_sub E_L' V_prev) R_m') I_prev) C_m') dt'))
       noise"

subsection \<open>\<^verbatim>\<open>tests/test_neuron_models.py\<close>: the caller\<close>

text \<open>
  \<^verbatim>\<open>NeuronParameters(C_m=..., E_L=..., E_K=..., R_m=..., V_th=..., V_reset=...)\<close>: the
  constructor call of \<^verbatim>\<open>test_LIF\<close>, every optional field at its default.
\<close>

definition NeuronParameters_required ::
    "real \<Rightarrow> real \<Rightarrow> real \<Rightarrow> real \<Rightarrow> real \<Rightarrow> real \<Rightarrow> NeuronParameters_fields" where
  "NeuronParameters_required C_m' E_L' E_K' R_m' V_th' V_reset' =
     \<lparr>C_m = C_m', E_L = E_L', E_K = E_K', R_m = R_m', V_th = V_th', V_reset = V_reset',
      V_peak = None, tau_vc = None, tau_vth = None, V_th_max = None, tau_G_ref = None,
      G_SRA = None, Delta_G_SRA = None, tau_SRA = None, V_max = None, Delta_th = None,
      a_param = None, b_param = None\<rparr>"

text \<open>
  The sequence of \<^verbatim>\<open>test_LIF\<close>: build the parameters, build the model, call
  \<^verbatim>\<open>simulate\<close>, read the voltage trace and \<^verbatim>\<open>num_fire\<close>. An exception at any point ends it.
\<close>

definition LIF_experiment ::
    "NeuronParameters_fields \<Rightarrow> real list \<Rightarrow> real list \<Rightarrow> real \<Rightarrow> (nat \<Rightarrow> real)
       \<Rightarrow> py_error + real list \<times> int" where
  "LIF_experiment given ts Is sigma normal =
     (case NeuronParameters_post_init given of
        Inl e \<Rightarrow> Inl e
      | Inr params \<Rightarrow>
          (case LIFModel_init params ts Is sigma normal of
             Inl e \<Rightarrow> Inl e
           | Inr lif \<Rightarrow>
               (case LIFModel_simulate lif of
                  Raised e lif' \<Rightarrow> Inl e
                | Returned lif' \<Rightarrow> Inr (V lif', num_fire lif'))))"

text \<open>
  The sequence of \<^verbatim>\<open>test_AELIF\<close>, with the constructor argument \<^verbatim>\<open>isi_array\<close> as well:
  build the parameters, build the model, call \<^verbatim>\<open>simulate\<close>, read \<^verbatim>\<open>num_fire\<close> and
  \<^verbatim>\<open>isi_array\<close>.
\<close>

definition AELIF_experiment ::
    "NeuronParameters_fields \<Rightarrow> real list \<Rightarrow> real list \<Rightarrow> real \<Rightarrow> npfloat list option
       \<Rightarrow> (nat \<Rightarrow> real) \<Rightarrow> py_error + int \<times> npfloat list" where
  "AELIF_experiment given ts Is sigma isi normal =
     (case NeuronParameters_post_init given of
        Inl e \<Rightarrow> Inl e
      | Inr params \<Rightarrow>
          (case AELIFModel_init params ts Is sigma isi normal of
             Inl e \<Rightarrow> Inl e
           | Inr aelif \<Rightarrow>
               (case AELIFModel_simulate aelif of
                  Raised e aelif' \<Rightarrow> Inl e
                | Returned aelif' \<Rightarrow> Inr (num_fire aelif', isi_array aelif'))))"

subsection \<open>The steps as the specification words them\<close>

text \<open>
  The value the specification proposes for \<open>V[i]\<close> in a LIF model (steps 1 to 3 of its
  section 4.3): the derivative \<open>dV = ((E_L - V[i - 1]) / R_m + I[i - 1]) / C_m\<close>, the Euler
  step \<open>V[i - 1] + dV * dt\<close>, plus the noise term of index \<open>i\<close>, read on a voltage trace
  whose earlier entries are final.
\<close>

definition spec_LIF_proposed :: "LIFModel \<Rightarrow> real list \<Rightarrow> nat \<Rightarrow> real" where
  "spec_LIF_proposed m ns i =
     V m ! (i - 1)
     + ((E_L (neuron_parameters m) - V m ! (i - 1)) / R_m (neuron_parameters m)
        + I m ! (i - 1))
         / C_m (neuron_parameters m) * dt m
     + ns ! i"

text \<open>The state \<open>m\<close> is what the steps \<open>1, \<dots>, n - 1\<close> of the LIF loop make of \<open>m0\<close>.\<close>

definition LIF_steps_done :: "LIFModel \<Rightarrow> real list \<Rightarrow> nat \<Rightarrow> LIFModel \<Rightarrow> bool" where
  "LIF_steps_done m0 ns n m \<longleftrightarrow>
     neuron_parameters m = neuron_parameters m0 \<and> times_grid m = times_grid m0
     \<and> I m = I m0 \<and> dt m = dt m0 \<and> noise_sigma m = noise_sigma m0 \<and> noises m = noises m0
     \<and> length (V m) = length (V m0)
     \<and> V m ! 0 = V m0 ! 0
     \<and> (\<forall>i. n \<le> i \<longrightarrow> V m ! i = V m0 ! i)
     \<and> (\<forall>i. 1 \<le> i \<and> i < n \<longrightarrow>
           V m ! i = (if spec_LIF_proposed m ns i > V_th (neuron_parameters m0)
                      then V_reset (neuron_parameters m0) else spec_LIF_proposed m ns i))
     \<and> num_fire m = num_fire m0
          + int (length (filter (\<lambda>i. spec_LIF_proposed m ns i > V_th (neuron_parameters m0)) [1..<n]))
     \<and> stdout m = stdout m0
          @ map (\<lambda>i. times_grid m0 ! i)
              (filter (\<lambda>i. spec_LIF_proposed m ns i > V_th (neuron_parameters m0)) [1..<n])
     \<and> last_fire_time m =
          foldl (\<lambda>t i. Some (times_grid m0 ! i)) (last_fire_time m0)
            (filter (\<lambda>i. spec_LIF_proposed m ns i > V_th (neuron_parameters m0)) [1..<n])"

text \<open>
  For the AELIF model: the unclipped Euler updates of \<open>V[i]\<close> and of \<open>I_SRA[i]\<close> from the
  entries of index \<open>i - 1\<close>, with the optional parameters \<open>Delta_th\<close>, \<open>a\<close> and \<open>tau_SRA\<close>
  given.
\<close>

definition spec_AELIF_euler_V :: "AELIFModel \<Rightarrow> real \<Rightarrow> nat \<Rightarrow> real" where
  "spec_AELIF_euler_V m D i =
     V m ! (i - 1)
     + dt m * ((G_L (neuron_parameters m)
                  * (E_L (neuron_parameters m) - V m ! (i - 1)
                     + D * exp ((V m ! (i - 1) - V_th (neuron_parameters m)) / D))
                - I_SRA_array m ! (i - 1) + I m ! (i - 1))
               / C_m (neuron_parameters m))"

definition spec_AELIF_euler_I_SRA :: "AELIFModel \<Rightarrow> real \<Rightarrow> real \<Rightarrow> nat \<Rightarrow> real" where
  "spec_AELIF_euler_I_SRA m a tau i =
     I_SRA_array m ! (i - 1)
     + dt m * ((a * (V m ! (i - 1) - E_L (neuron_parameters m)) - I_SRA_array m ! (i - 1)) / tau)"

text \<open>The state \<open>m\<close> is what the steps \<open>1, \<dots>, n - 1\<close> of the AELIF loop make of \<open>m0\<close>.\<close>

definition AELIF_steps_done ::
    "AELIFModel \<Rightarrow> real \<Rightarrow> real \<Rightarrow> real \<Rightarrow> real \<Rightarrow> real \<Rightarrow> nat \<Rightarrow> AELIFModel \<Rightarrow> bool" where
  "AELIF_steps_done m0 D a tau vmax b n m \<longleftrightarrow>
     neuron_parameters m = neuron_parameters m0 \<and> times_grid m = times_grid m0
     \<and> I m = I m0 \<and> dt m = dt m0 \<and> noise_sigma m = noise_sigma m0 \<and> noises m = noises m0
     \<and> last_fire_time m = last_fire_time m0 \<and> stdout m = stdout m0
     \<and> length (V m) = length (V m0)
     \<and> length (I_SRA_array m) = length (I_SRA_array m0)
     \<and> length (spike_array m) = length (spike_array m0)
     \<and> (\<forall>i. i = 0 \<or> n \<le> i \<longrightarrow>
           V m ! i = V m0 ! i \<and> I_SRA_array m ! i = I_SRA_array m0 ! i
           \<and> spike_array m ! i = spike_array m0 ! i)
     \<and> (\<forall>i. 1 \<le> i \<and> i < n \<longrightarrow>
           V m ! i = (if spec_AELIF_euler_V m D i \<ge> vmax then V_reset (neuron_parameters m0)
                      else spec_AELIF_euler_V m D i)
           \<and> I_SRA_array m ! i = (if spec_AELIF_euler_V m D i \<ge> vmax
                                  then spec_AELIF_euler_I_SRA m a tau i + b
                                  else spec_AELIF_euler_I_SRA m a tau i)
           \<and> spike_array m ! i = (if spec_AELIF_euler_V m D i \<ge> vmax then 1
                                  else spike_array m0 ! i))
     \<and> num_fire m = num_fire m0
          + int (length (filter (\<lambda>i. spec_AELIF_euler_V m D i \<ge> vmax) [1..<n]))
     \<and> length (isi_array m) = length (isi_array m0)
          + length (filter (\<lambda>i. spec_AELIF_euler_V m D i \<ge> vmax) [1..<n])
     \<and> last_spike_time m =
          foldl (\<lambda>t i. Finite (times_grid m0 ! i)) (last_spike_time m0)
            (filter (\<lambda>i. spec_AELIF_euler_V m D i \<ge> vmax) [1..<n])"

text \<open>
  What \<^verbatim>\<open>simulate\<close> leaves alone, between a state \<open>m\<close> and a later state \<open>m'\<close>: the
  parameters, the grid, the input currents, the step, the noise, and the first entry of
  the voltage trace; for the AELIF model also what only the LIF loop writes and the first
  entries of its two arrays.
\<close>

definition LIF_frame :: "'a LIFModel_scheme \<Rightarrow> 'a LIFModel_scheme \<Rightarrow> bool" where
  "LIF_frame m m' \<longleftrightarrow>
     neuron_parameters m' = neuron_parameters m \<and> times_grid m' = times_grid m
     \<and> I m' = I m \<and> dt m' = dt m \<and> noise_sigma m' = noise_sigma m \<and> noises m' = noises m
     \<and> length (V m') = length (V m) \<and> V m' ! 0 = V m ! 0"

definition AELIF_frame :: "AELIFModel \<Rightarrow> AELIFModel \<Rightarrow> bool" where
  "AELIF_frame m m' \<longleftrightarrow>
     LIF_frame m m' \<and> last_fire_time m' = last_fire_time m \<and> stdout m' = stdout m
     \<and> length (I_SRA_array m') = length (I_SRA_array m)
     \<and> I_SRA_array m' ! 0 = I_SRA_array m ! 0
     \<and> length (spike_array m') = length (spike_array m)
     \<and> spike_array m' ! 0 = spike_array m ! 0"

section \<open>Properties\<close>

subsection \<open>The parameter dataclass\<close>

lemma NeuronParameters_post_init_nonzero:
  assumes "R_m self \<noteq> 0"
  shows "NeuronParameters_post_init self =
           Inr (NeuronParameters_fields.extend self
                  (NeuronParameters.fields (1 / R_m self) (C_m self / (1 / R_m self))
                     (1 / R_m self * (V_th self - E_L self))))"
  using assms by (simp add: NeuronParameters_post_init_def py_truediv_def)

lemma NeuronParameters_post_init_zero:
  assumes "R_m self = 0"
  shows "NeuronParameters_post_init self = Inl ZeroDivisionError"
  using assms by (simp add: NeuronParameters_post_init_def py_truediv_def)

text \<open>
  Claim C9, as stated, has construction fail exactly when \<open>R_m\<close> is zero. An infinite
  \<open>R_m\<close> is not zero, yet \<open>G_L = 1.0 / R_m\<close> is then \<^verbatim>\<open>0.0\<close> and \<open>C_m / G_L\<close> raises; and
  a zero \<open>R_m\<close> that is an \<^verbatim>\<open>np.float64\<close> raises nothing.
\<close>

theorem NeuronParameters_construction_counterexample:
  "NeuronParameters_raises PlainFloat PosInf = Some ZeroDivisionError
   \<and> PosInf \<noteq> Finite 0
   \<and> NeuronParameters_raises NumpyFloat64 (Finite 0) = None"
  by (simp add: NeuronParameters_raises_def)

text \<open>
  Claim C9, amended. For an \<open>R_m\<close> that is a finite plain Python float, construction
  computes \<open>G_L = 1 / R_m\<close>, \<open>tau_m = C_m / G_L\<close> and \<open>I_th = G_L * (V_th - E_L)\<close> and leaves
  the given fields as they are; it raises exactly when \<open>R_m\<close> is zero, and what it raises
  then is the division by zero itself, not another error.
\<close>

theorem NeuronParameters_construction:
  "(R_m self \<noteq> 0 \<longrightarrow>
      (\<exists>p. NeuronParameters_post_init self = Inr p
         \<and> G_L p = 1 / R_m self
         \<and> tau_m p = C_m self / G_L p
         \<and> I_th p = G_L p * (V_th self - E_L self)
         \<and> NeuronParameters_fields.truncate p = self))
   \<and> ((\<exists>e. NeuronParameters_post_init self = Inl e) \<longleftrightarrow> R_m self = 0)
   \<and> (\<forall>e. NeuronParameters_post_init self = Inl e \<longrightarrow> e = ZeroDivisionError)
   \<and> NeuronParameters_raises PlainFloat (Finite (R_m self))
        = (case NeuronParameters_post_init self of Inl e \<Rightarrow> Some e | Inr p \<Rightarrow> None)"
proof (cases "R_m self = 0")
  case True
  then show ?thesis
    by (simp add: NeuronParameters_post_init_zero NeuronParameters_raises_def)
next
  case False
  then show ?thesis
    by (simp add: NeuronParameters_post_init_nonzero NeuronParameters_raises_def
        NeuronParameters_fields.defs NeuronParameters.defs)
qed

theorem NeuronParameters_construction_witness:
  "(\<exists>p. NeuronParameters_post_init
     \<lparr>C_m = 2, E_L = -70, E_K = -80, R_m = 5, V_th = -50, V_reset = -65,
      V_peak = None, tau_vc = None, tau_vth = None, V_th_max = None, tau_G_ref = None,
      G_SRA = None, Delta_G_SRA = None, tau_SRA = None, V_max = None, Delta_th = None,
      a_param = None, b_param = None\<rparr> = Inr p
      \<and> G_L p = 1 / 5 \<and> tau_m p = 10 \<and> I_th p = 4 \<and> C_m p = 2)
   \<and> NeuronParameters_post_init
     \<lparr>C_m = 2, E_L = -70, E_K = -80, R_m = 0, V_th = -50, V_reset = -65,
      V_peak = None, tau_vc = None, tau_vth = None, V_th_max = None, tau_G_ref = None,
      G_SRA = None, Delta_G_SRA = None, tau_SRA = None, V_max = None, Delta_th = None,
      a_param = None, b_param = None\<rparr>
   = Inl ZeroDivisionError"
proof -
  let ?f = "\<lparr>C_m = 2, E_L = -70, E_K = -80, R_m = 5::real, V_th = -50, V_reset = -65,
      V_peak = None, tau_vc = None, tau_vth = None, V_th_max = None, tau_G_ref = None,
      G_SRA = None, Delta_G_SRA = None, tau_SRA = None, V_max = None, Delta_th = None,
      a_param = None, b_param = None\<rparr>"
  let ?g = "\<lparr>C_m = 2, E_L = -70, E_K = -80, R_m = 0::real, V_th = -50, V_reset = -65,
      V_peak = None, tau_vc = None, tau_vth = None, V_th_max = None, tau_G_ref = None,
      G_SRA = None, Delta_G_SRA = None, tau_SRA = None, V_max = None, Delta_th = None,
      a_param = None, b_param = None\<rparr>"
  have nz: "R_m ?f \<noteq> 0" by simp
  from NeuronParameters_construction [of ?f] nz
  obtain p where p: "NeuronParameters_post_init ?f = Inr p" "G_L p = 1 / R_m ?f"
      "tau_m p = C_m ?f / G_L p" "I_th p = G_L p * (V_th ?f - E_L ?f)"
      "NeuronParameters_fields.truncate p = ?f"
    by blast
  have "C_m (NeuronParameters_fields.truncate p) = C_m p"
    by (simp add: NeuronParameters_fields.truncate_def)
  with p(5) have c: "C_m p = 2" by simp
  have g: "G_L p = 1 / 5" using p(2) by simp
  have t: "tau_m p = 10" using p(3) unfolding g by simp
  have i: "I_th p = 4" using p(4) unfolding g by simp
  note a = g t i c
  have z: "R_m ?g = 0" by simp
  from NeuronParameters_construction [of ?g] z
  obtain e where "NeuronParameters_post_init ?g = Inl e" "e = ZeroDivisionError"
    by blast
  with p(1) a show ?thesis by blast
qed

subsection \<open>Analysis of spike trains\<close>

lemma np_split_ok:
  assumes "1 \<le> w" and "w dvd length xs"
  shows "np_split xs (int w) =
           Inr (map (\<lambda>k. take (length xs div w) (drop (k * (length xs div w)) xs)) [0..<w])"
proof -
  from assms(2) have "int w dvd int (length xs)" by simp
  then have "int (length xs) mod int w = 0" by (simp only: mod_eq_0_iff_dvd)
  with assms(1) show ?thesis by (simp add: np_split_def Let_def)
qed

lemma sum_list_take_drop:
  assumes "a + n \<le> length xs"
  shows "sum_list (take n (drop a xs)) = (\<Sum>j<n. xs ! (a + j))"
proof -
  from assms have len: "length (take n (drop a xs)) = n" by simp
  have "sum_list (take n (drop a xs)) = (\<Sum>j<length (take n (drop a xs)). take n (drop a xs) ! j)"
    by (simp only: sum_list_sum_nth atLeast0LessThan)
  also have "\<dots> = (\<Sum>j<n. xs ! (a + j))"
    unfolding len using assms by (intro sum.cong) auto
  finally show ?thesis .
qed

text \<open>
  Claim C7. With \<open>new_dt = old_dt\<close> (a nonzero time step) \<^verbatim>\<open>expand_bins\<close> returns its input:
  the same length and the same entries.
\<close>

theorem expand_bins_identity:
  assumes "old_dt \<noteq> 0"
  shows "expand_bins xs old_dt old_dt = Inr xs"
proof -
  have q: "py_truediv old_dt old_dt = Inr 1"
    using assms by (simp add: py_truediv_def)
  have s: "np_split xs 1 = Inr [xs]"
    by (simp add: np_split_def)
  have m: "np_mean_axis0 [xs] = xs"
    by (simp add: np_mean_axis0_def map_nth)
  show ?thesis
    by (simp add: expand_bins_def expand_bins_segments_def q py_int_def s m)
qed

theorem expand_bins_identity_witness:
  "(0.1::real) \<noteq> 0 \<and> expand_bins [0, 1, 1, 0, 1] 0.1 0.1 = Inr [0, 1, 1, 0, 1]"
  using expand_bins_identity [of "0.1" "[0, 1, 1, 0, 1]"] by simp

text \<open>
  Claim C3, as stated, asks for one mean per segment, so a result of length \<open>sf\<close>. The
  source takes the mean along axis 0, across the segments: six samples in two segments
  give three values, not two.
\<close>

theorem expand_bins_counterexample:
  "expand_bins [1, 2, 3, 4, 5, 6] 2 1 = Inr [5 / 2, 7 / 2, 9 / 2]
   \<and> expand_bins [1, 2, 3, 4, 5, 6] 2 1 \<noteq> Inr [(1 + 2 + 3) / 3, (4 + 5 + 6) / 3]"
  by code_simp

lemma sum_list_map_upt: "sum_list (map g [0..<w]) = (\<Sum>k<w. g k)"
  by (simp add: interv_sum_list_conv_sum_set_nat atLeast0LessThan)

lemma np_mean_axis0_map:
  assumes "0 < w"
  shows "np_mean_axis0 (map f [0..<w]) =
           map (\<lambda>j. (\<Sum>k<w. f k ! j) / real w) [0..<length (f 0)]"
proof -
  from assms have "[0..<w] = 0 # [Suc 0..<w]" by (simp add: upt_conv_Cons)
  then have "map f [0..<w] = f 0 # map f [Suc 0..<w]" by simp
  then have "np_mean_axis0 (map f [0..<w]) =
      map (\<lambda>j. (\<Sum>row\<leftarrow>map f [0..<w]. row ! j) / real (length (map f [0..<w]))) [0..<length (f 0)]"
    by (simp add: np_mean_axis0_def)
  also have "\<dots> = map (\<lambda>j. (\<Sum>k<w. f k ! j) / real w) [0..<length (f 0)]"
    by (simp add: sum_list_map_upt [symmetric] comp_def)
  finally show ?thesis .
qed

lemma window_in_range:
  assumes "w dvd length xs" and "k < w"
  shows "k * (length xs div w) + length xs div w \<le> length xs"
proof -
  from assms(2) have "Suc k \<le> w" by simp
  then have "Suc k * (length xs div w) \<le> w * (length xs div w)"
    by (rule mult_le_mono1)
  also from assms(1) have "w * (length xs div w) = length xs" by simp
  finally show ?thesis by simp
qed

text \<open>
  Claim C3, amended. For a segment count \<open>sf \<ge> 1\<close>, as computed by
  \<open>int(new_dt / old_dt)\<close>, that divides the length of the array, \<^verbatim>\<open>expand_bins\<close> cuts the
  array into \<open>sf\<close> consecutive segments of equal length and returns their entry-wise mean:
  the result has the length of one segment, and its \<open>j\<close>-th entry is the mean of the
  \<open>j\<close>-th entries of the segments.
\<close>

theorem expand_bins_spec:
  assumes "1 \<le> sf" and "sf dvd length xs"
  shows "\<exists>ys. expand_bins_segments xs (int sf) = Inr ys
           \<and> length ys = length xs div sf
           \<and> (\<forall>j<length ys. ys ! j = (\<Sum>k<sf. xs ! (k * (length xs div sf) + j)) / real sf)"
proof -
  let ?n = "length xs div sf"
  let ?seg = "\<lambda>k. take ?n (drop (k * ?n) xs)"
  let ?ys = "map (\<lambda>j. (\<Sum>k<sf. ?seg k ! j) / real sf) [0..<length (?seg 0)]"
  have s: "np_split xs (int sf) = Inr (map ?seg [0..<sf])"
    using assms by (rule np_split_ok)
  have m: "np_mean_axis0 (map ?seg [0..<sf]) = ?ys"
    using assms(1) by (intro np_mean_axis0_map) simp
  have e: "expand_bins_segments xs (int sf) = Inr ?ys"
    by (simp add: expand_bins_segments_def s m)
  have "?n \<le> length xs" by (rule div_le_dividend)
  then have l: "length ?ys = ?n" by simp
  have "?ys ! j = (\<Sum>k<sf. xs ! (k * ?n + j)) / real sf" if "j < ?n" for j
  proof -
    have "?seg k ! j = xs ! (k * ?n + j)" if "k < sf" for k
    proof -
      from window_in_range [OF assms(2) that] \<open>j < ?n\<close>
      have "k * ?n + j < length xs" by simp
      with \<open>j < ?n\<close> show ?thesis by simp
    qed
    then have "(\<Sum>k<sf. ?seg k ! j) = (\<Sum>k<sf. xs ! (k * ?n + j))"
      by (intro sum.cong) auto
    with that l show ?thesis by simp
  qed
  with e l show ?thesis by (intro exI [of _ ?ys]) simp
qed

theorem expand_bins_spec_witness:
  "(1::nat) \<le> 2 \<and> (2::nat) dvd length [1, 2, 3, 4, 5, 6::real]
   \<and> (\<exists>ys. expand_bins_segments [1, 2, 3, 4, 5, 6] 2 = Inr ys \<and> length ys = 3
         \<and> ys ! 0 = (1 + 4) / 2 \<and> ys ! 1 = (2 + 5) / 2 \<and> ys ! 2 = (3 + 6) / 2)"
proof -
  have h3: "(1::nat) \<le> 2" by simp
  have h4: "(2::nat) dvd length [1, 2, 3, 4, 5, 6::real]" by simp
  have s2: "{..<2::nat} = {0, 1}" by auto
  from expand_bins_spec [OF h3 h4]
  obtain ys where e: "expand_bins_segments [1, 2, 3, 4, 5, 6] (int 2) = Inr ys"
    and l: "length ys = length [1, 2, 3, 4, 5, 6::real] div 2"
    and v: "\<forall>j<length ys. ys ! j =
        (\<Sum>k<2. [1, 2, 3, 4, 5, 6] ! (k * (length [1, 2, 3, 4, 5, 6::real] div 2) + j)) / real (2::nat)"
    by blast
  from e have e': "expand_bins_segments [1, 2, 3, 4, 5, 6] 2 = Inr ys" by simp
  from l have l3: "length ys = 3" by simp
  from v l3 have "ys ! 0 = (1 + 4) / 2" "ys ! 1 = (2 + 5) / 2" "ys ! 2 = (3 + 6) / 2"
    by (simp_all add: s2)
  with h3 h4 e' l3 show ?thesis by blast
qed

lemma spec_window_counts_eq:
  assumes "w dvd length xs"
  shows "np_sum_axis1 (map (\<lambda>k. take (length xs div w) (drop (k * (length xs div w)) xs)) [0..<w])
           = spec_window_counts xs w"
proof -
  have "sum_list (take (length xs div w) (drop (k * (length xs div w)) xs))
          = (\<Sum>j<length xs div w. xs ! (k * (length xs div w) + j))" if "k < w" for k
    using window_in_range [OF assms that] by (rule sum_list_take_drop)
  then show ?thesis
    by (simp add: np_sum_axis1_def spec_window_counts_def)
qed

text \<open>
  Claim C4. For a window count \<open>w \<ge> 1\<close>, as computed by \<open>int(time_range / dt)\<close>,
  \<^verbatim>\<open>find_fano_factor\<close> returns \<^verbatim>\<open>None\<close> exactly when \<open>w\<close> does not divide the length of the
  array. Otherwise it returns the variance of the per-window sums divided by their mean,
  the windows being the \<open>w\<close> consecutive pieces of equal length; the division is NumPy's,
  so a zero mean gives NaN or an infinity rather than an exception.
\<close>

theorem find_fano_factor_spec:
  assumes "1 \<le> w"
  shows "(find_fano_factor_windows (int w) xs = Inr None \<longleftrightarrow> \<not> w dvd length xs)
       \<and> (w dvd length xs \<longrightarrow>
            find_fano_factor_windows (int w) xs =
              Inr (Some (np_true_divide (np_var (spec_window_counts xs w))
                                        (np_mean (spec_window_counts xs w)))))
       \<and> (w dvd length xs \<and> np_mean (spec_window_counts xs w) \<noteq> 0 \<longrightarrow>
            find_fano_factor_windows (int w) xs =
              Inr (Some (Finite (np_var (spec_window_counts xs w)
                                  / np_mean (spec_window_counts xs w)))))"
proof -
  from assms have nz: "int w \<noteq> 0" by simp
  have dv: "int (length xs) mod int w = 0 \<longleftrightarrow> w dvd length xs"
    by (simp only: mod_eq_0_iff_dvd int_dvd_int_iff)
  show ?thesis
  proof (cases "w dvd length xs")
    case True
    have "find_fano_factor_windows (int w) xs =
            Inr (Some (np_true_divide (np_var (spec_window_counts xs w))
                                      (np_mean (spec_window_counts xs w))))"
      using True nz dv
      by (simp add: find_fano_factor_windows_def Let_def np_split_ok [OF assms True]
          spec_window_counts_eq [OF True])
    with True show ?thesis by (simp add: np_true_divide_def)
  next
    case False
    with nz dv have "find_fano_factor_windows (int w) xs = Inr None"
      by (simp add: find_fano_factor_windows_def Let_def)
    with False show ?thesis by simp
  qed
qed

theorem find_fano_factor_spec_witness:
  "(1::nat) \<le> 2
   \<and> find_fano_factor_windows 2 [1, 0, 1, 1] = Inr (Some (Finite (1 / 6)))
   \<and> find_fano_factor_windows 2 [1, 0, 1] = Inr None"
proof -
  have h3: "(1::nat) \<le> 2" by simp
  have c: "spec_window_counts [1, 0, 1, 1] 2 = [1, 2]" by code_simp
  have m: "np_mean [1, 2] = 3 / 2" by (simp add: np_mean_def)
  have v: "np_var [1, 2] = 1 / 4" by (simp add: np_var_def m) (simp add: np_mean_def power2_eq_square)
  have a: "find_fano_factor_windows 2 [1, 0, 1, 1] = Inr (Some (Finite (1 / 6)))"
    using find_fano_factor_spec [OF h3, of "[1, 0, 1, 1]"] by (simp add: c m v np_true_divide_def)
  have b: "find_fano_factor_windows 2 [1, 0, 1] = Inr None"
    using find_fano_factor_spec [OF h3, of "[1, 0, 1]"] by simp
  from h3 a b show ?thesis by simp
qed

subsection \<open>Method lookup\<close>

text \<open>
  Claim C8. The claim has each concrete model override \<^verbatim>\<open>dVdt\<close>, the hook that the base
  class declares and documents as returning the change in voltage at a step. In the
  source no class but the base class defines that name: both subclasses define the
  derivative under the name \<^verbatim>\<open>dvdt\<close>, while they do override the sibling hook
  \<^verbatim>\<open>simulate\<close>. So \<^verbatim>\<open>dVdt\<close> called on a LIF or an AELIF model runs the inherited body and
  raises \<^verbatim>\<open>NotImplementedError\<close>, where the claim has it compute the derivative.
\<close>

theorem dVdt_on_concrete_model_raises:
  "call_method Cls_LIFModel ''dVdt'' = Inl NotImplementedError
   \<and> call_method Cls_AELIFModel ''dVdt'' = Inl NotImplementedError
   \<and> call_method Cls_LIFModel ''simulate'' = Inr Cls_LIFModel
   \<and> call_method Cls_AELIFModel ''simulate'' = Inr Cls_AELIFModel"
  by (simp add: call_method_def lookup_method_def)

subsection \<open>Loops\<close>

lemma run_steps_append:
  "run_steps body (xs @ ys) s =
     (case run_steps body xs s of
        Returned s' \<Rightarrow> run_steps body ys s'
      | Raised e s' \<Rightarrow> Raised e s')"
  by (induction xs arbitrary: s) (simp_all split: outcome.splits)

lemma run_steps_snoc:
  assumes "run_steps body xs s = Returned s'"
  shows "run_steps body (xs @ [i]) s = body i s'"
  using assms by (simp add: run_steps_append split: outcome.splits)

lemma run_steps_state_of:
  assumes "Q s" and "\<And>i t. i \<in> set idx \<Longrightarrow> Q t \<Longrightarrow> Q (state_of (body i t))"
  shows "Q (state_of (run_steps body idx s))"
  using assms
proof (induction idx arbitrary: s)
  case Nil
  then show ?case by simp
next
  case (Cons i idx)
  from Cons.prems have q: "Q (state_of (body i s))" by simp
  show ?case
  proof (cases "body i s")
    case (Returned s')
    with q have "Q s'" by simp
    then have "Q (state_of (run_steps body idx s'))"
      using Cons.prems(2) by (intro Cons.IH) simp_all
    with Returned show ?thesis by simp
  next
    case (Raised e s')
    with q show ?thesis by simp
  qed
qed

subsection \<open>The LIF model\<close>

lemma LIFModel_body_step:
  assumes "1 \<le> i" and "i < length (V m)" and "i \<le> length (I m)"
    and "noises m = Some ns" and "i < length ns" and "i < length (times_grid m)"
  shows "LIFModel_simulate_body i m =
     Returned (if spec_LIF_proposed m ns i > V_th (neuron_parameters m)
       then m\<lparr>num_fire := num_fire m + 1, stdout := stdout m @ [times_grid m ! i],
              last_fire_time := Some (times_grid m ! i),
              V := (V m)[i := V_reset (neuron_parameters m)]\<rparr>
       else m\<lparr>V := (V m)[i := spec_LIF_proposed m ns i]\<rparr>)"
proof -
  have "V m ! (i - 1) + LIFModel_dvdt m (V m ! (i - 1)) (I m ! (i - 1)) * dt m + ns ! i
          = spec_LIF_proposed m ns i"
    by (simp add: spec_LIF_proposed_def LIFModel_dvdt_def mult.commute)
  moreover from assms have "\<not> length (V m) \<le> i - 1" "\<not> length (I m) \<le> i - 1"
    by linarith+
  ultimately show ?thesis using assms
    by (simp add: LIFModel_simulate_body_def store_V_def Let_def del: One_nat_def)
qed

lemma spec_LIF_proposed_cong:
  assumes "V m' ! (i - 1) = V m ! (i - 1)" and "neuron_parameters m' = neuron_parameters m"
    and "I m' = I m" and "dt m' = dt m"
  shows "spec_LIF_proposed m' ns i = spec_LIF_proposed m ns i"
  using assms by (simp add: spec_LIF_proposed_def)

lemma LIF_steps_done_start: "LIF_steps_done m0 ns 1 m0"
  by (simp add: LIF_steps_done_def)

lemma LIF_steps_done_step:
  assumes d: "LIF_steps_done m0 ns n m" and n: "1 \<le> n" "n < length (V m0)"
    and b: "LIFModel_simulate_body n m =
     Returned (if spec_LIF_proposed m ns n > V_th (neuron_parameters m)
       then m\<lparr>num_fire := num_fire m + 1, stdout := stdout m @ [times_grid m ! n],
              last_fire_time := Some (times_grid m ! n),
              V := (V m)[n := V_reset (neuron_parameters m)]\<rparr>
       else m\<lparr>V := (V m)[n := spec_LIF_proposed m ns n]\<rparr>)"
  shows "\<exists>m'. LIFModel_simulate_body n m = Returned m' \<and> LIF_steps_done m0 ns (Suc n) m'"
proof -
  let ?th = "V_th (neuron_parameters m0)"
  let ?v = "if spec_LIF_proposed m ns n > ?th then V_reset (neuron_parameters m0)
            else spec_LIF_proposed m ns n"
  let ?m' = "if spec_LIF_proposed m ns n > V_th (neuron_parameters m)
       then m\<lparr>num_fire := num_fire m + 1, stdout := stdout m @ [times_grid m ! n],
              last_fire_time := Some (times_grid m ! n),
              V := (V m)[n := V_reset (neuron_parameters m)]\<rparr>
       else m\<lparr>V := (V m)[n := spec_LIF_proposed m ns n]\<rparr>"
  from d have fr: "neuron_parameters m = neuron_parameters m0" "times_grid m = times_grid m0"
      "I m = I m0" "dt m = dt m0" "noise_sigma m = noise_sigma m0" "noises m = noises m0"
      "length (V m) = length (V m0)" "V m ! 0 = V m0 ! 0"
    by (simp_all add: LIF_steps_done_def)
  have Vm': "V ?m' = (V m)[n := ?v]" by (simp add: fr)
  have fr': "neuron_parameters ?m' = neuron_parameters m0" "times_grid ?m' = times_grid m0"
      "I ?m' = I m0" "dt ?m' = dt m0" "noise_sigma ?m' = noise_sigma m0" "noises ?m' = noises m0"
    by (simp_all add: fr)
  have same: "spec_LIF_proposed ?m' ns i = spec_LIF_proposed m ns i" if "1 \<le> i" "i \<le> n" for i
  proof (rule spec_LIF_proposed_cong)
    from that have "i - 1 \<noteq> n" by simp
    then show "V ?m' ! (i - 1) = V m ! (i - 1)" by (simp add: Vm' del: One_nat_def)
  qed (simp_all add: fr fr')
  have filt: "filter (\<lambda>i. spec_LIF_proposed ?m' ns i > ?th) [1..<n]
                = filter (\<lambda>i. spec_LIF_proposed m ns i > ?th) [1..<n]"
    by (rule filter_cong) (auto simp: same simp del: One_nat_def)
  have upt: "[1..<Suc n] = [1..<n] @ [n]" using n(1) by simp
  have filt': "filter (\<lambda>i. spec_LIF_proposed ?m' ns i > ?th) [1..<Suc n]
     = filter (\<lambda>i. spec_LIF_proposed m ns i > ?th) [1..<n]
       @ (if spec_LIF_proposed m ns n > ?th then [n] else [])"
    unfolding upt using same [of n] n(1) filt by (simp del: One_nat_def)
  have Vn: "V ?m' ! n = ?v" using n(2) by (simp add: Vm' fr)
  have Vold: "V ?m' ! i = V m ! i" if "i \<noteq> n" for i using that by (simp add: Vm')
  have 1: "length (V ?m') = length (V m0)" by (simp add: Vm' fr)
  have 2: "V ?m' ! 0 = V m0 ! 0" using n(1) by (simp add: Vold fr)
  have 3: "\<forall>i. Suc n \<le> i \<longrightarrow> V ?m' ! i = V m0 ! i"
    using d by (simp add: Vold LIF_steps_done_def)
  have 4: "V ?m' ! i = (if spec_LIF_proposed ?m' ns i > ?th
                      then V_reset (neuron_parameters m0) else spec_LIF_proposed ?m' ns i)"
    if "1 \<le> i" "i < Suc n" for i
  proof (cases "i = n")
    case True
    with Vn same [of n] n(1) show ?thesis by simp
  next
    case False
    with that have "i < n" by simp
    with d that(1) have "V m ! i = (if spec_LIF_proposed m ns i > ?th
                      then V_reset (neuron_parameters m0) else spec_LIF_proposed m ns i)"
      by (simp add: LIF_steps_done_def)
    with False that same [of i] show ?thesis by (simp add: Vold)
  qed
  have 5: "num_fire ?m' = num_fire m0
          + int (length (filter (\<lambda>i. spec_LIF_proposed ?m' ns i > ?th) [1..<Suc n]))"
    using d unfolding filt' by (simp add: LIF_steps_done_def)
  have 6: "stdout ?m' = stdout m0
          @ map (\<lambda>i. times_grid m0 ! i)
              (filter (\<lambda>i. spec_LIF_proposed ?m' ns i > ?th) [1..<Suc n])"
    using d unfolding filt' by (simp add: LIF_steps_done_def)
  have 7: "last_fire_time ?m' =
          foldl (\<lambda>t i. Some (times_grid m0 ! i)) (last_fire_time m0)
            (filter (\<lambda>i. spec_LIF_proposed ?m' ns i > ?th) [1..<Suc n])"
    using d unfolding filt' by (simp add: LIF_steps_done_def)
  have "LIF_steps_done m0 ns (Suc n) ?m'"
    unfolding LIF_steps_done_def fr'
    using 1 2 3 4 5 6 7 by (intro conjI allI impI) (simp_all del: One_nat_def)
  with b show ?thesis by simp
qed

lemma LIFModel_loop:
  assumes wf: "length (V m0) = length (times_grid m0)"
      "length (times_grid m0) \<le> Suc (length (I m0))"
      "noises m0 = Some ns" "length ns = length (times_grid m0)"
    and n: "1 \<le> n" "n \<le> length (times_grid m0)"
  shows "\<exists>m. run_steps LIFModel_simulate_body [1..<n] m0 = Returned m \<and> LIF_steps_done m0 ns n m"
  using n
proof (induction n rule: dec_induct)
  case base
  show ?case using LIF_steps_done_start by simp
next
  case (step n)
  then obtain m where r: "run_steps LIFModel_simulate_body [1..<n] m0 = Returned m"
    and d: "LIF_steps_done m0 ns n m" by auto
  from d have fr: "neuron_parameters m = neuron_parameters m0" "times_grid m = times_grid m0"
      "I m = I m0" "noises m = noises m0" "length (V m) = length (V m0)"
    by (simp_all add: LIF_steps_done_def)
  from step.prems step.hyps wf have "1 \<le> n" "n < length (V m)" "n \<le> length (I m)"
      "noises m = Some ns" "n < length ns" "n < length (times_grid m)"
    by (simp_all add: fr)
  then have b: "LIFModel_simulate_body n m =
     Returned (if spec_LIF_proposed m ns n > V_th (neuron_parameters m)
       then m\<lparr>num_fire := num_fire m + 1, stdout := stdout m @ [times_grid m ! n],
              last_fire_time := Some (times_grid m ! n),
              V := (V m)[n := V_reset (neuron_parameters m)]\<rparr>
       else m\<lparr>V := (V m)[n := spec_LIF_proposed m ns n]\<rparr>)"
    by (rule LIFModel_body_step)
  from \<open>n < length (V m)\<close> fr have "n < length (V m0)" by simp
  from LIF_steps_done_step [OF d \<open>1 \<le> n\<close> this b]
  obtain m' where "LIFModel_simulate_body n m = Returned m'" "LIF_steps_done m0 ns (Suc n) m'"
    by blast
  moreover from \<open>1 \<le> n\<close> have "[1..<Suc n] = [1..<n] @ [n]" by simp
  ultimately show ?case using run_steps_snoc [OF r, of n] by auto
qed

lemma LIFModel_init_Inr:
  assumes "LIFModel_init p ts Is sigma normal = Inr m0"
  shows "2 \<le> length ts"
    and "m0 = \<lparr>neuron_parameters = p, times_grid = ts, I = Is,
               V = (replicate (length ts) 0)[0 := E_L p], dt = ts ! 1 - ts ! 0, num_fire = 0,
               noise_sigma = sigma,
               noises = Some (map (\<lambda>k. normal k * sigma * sqrt (ts ! 1 - ts ! 0)) [0..<length ts]),
               last_fire_time = None, stdout = []\<rparr>"
  using assms
  by (auto simp: LIFModel_init_def BaseNeuronModel_post_init_def split: if_splits)

lemma foldl_Some_last:
  "foldl (\<lambda>t i. Some (f i)) a xs = (if xs = [] then a else Some (f (last xs)))"
  by (induction xs arbitrary: a) simp_all

lemma LIFModel_simulate_returns:
  assumes i: "LIFModel_init p ts Is sigma normal = Inr m0" and l: "length ts \<le> Suc (length Is)"
  shows "\<exists>m. LIFModel_simulate m0 = Returned m
           \<and> LIF_steps_done m0 (map (\<lambda>k. normal k * sigma * sqrt (ts ! 1 - ts ! 0)) [0..<length ts])
               (length ts) m"
proof -
  note m0 = LIFModel_init_Inr [OF i]
  let ?ns = "map (\<lambda>k. normal k * sigma * sqrt (ts ! 1 - ts ! 0)) [0..<length ts]"
  have wf: "length (V m0) = length (times_grid m0)"
      "length (times_grid m0) \<le> Suc (length (I m0))"
      "noises m0 = Some ?ns" "length ?ns = length (times_grid m0)"
    using l by (simp_all add: m0(2))
  have n: "1 \<le> length ts" "length ts \<le> length (times_grid m0)"
    using m0(1) by (simp_all add: m0(2))
  from LIFModel_loop [OF wf n] have
    "\<exists>m. run_steps LIFModel_simulate_body [1..<length ts] m0 = Returned m
         \<and> LIF_steps_done m0 ?ns (length ts) m" .
  moreover have "times_grid m0 = ts" by (simp add: m0(2))
  ultimately show ?thesis by (simp add: LIFModel_simulate_def)
qed

text \<open>
  Claim C1. For a LIF model as constructed, with nonzero \<open>R_m\<close> and \<open>C_m\<close> (the
  divisors of the derivative), on a grid of \<open>N \<ge> 2\<close> points whose first step is not
  negative (the noise is scaled by its square root) and with at least
  \<open>N - 1\<close> input currents, \<^verbatim>\<open>simulate\<close> returns and the final trace satisfies, for each
  \<open>i\<close> from 1 to \<open>N - 1\<close>: \<open>V[i]\<close> is the proposed value
  \<open>V[i - 1] + ((E_L - V[i - 1]) / R_m + I[i - 1]) / C_m * dt + noises[i]\<close>, unless that value
  is strictly greater than \<open>V_th\<close>, in which case \<open>V[i]\<close> is \<open>V_reset\<close>. \<open>num_fire\<close> counts
  those indices, the firing times \<open>times[i]\<close> are reported in order, and the last of them
  is recorded.
\<close>

theorem LIFModel_simulate_spec:
  assumes "LIFModel_init p ts Is sigma normal = Inr m0" and "length ts \<le> Suc (length Is)"
    and "R_m p \<noteq> 0" and "C_m p \<noteq> 0" and "ts ! 0 \<le> ts ! 1"
  shows "\<exists>m ns. LIFModel_simulate m0 = Returned m
     \<and> noises m0 = Some ns \<and> noises m = Some ns
     \<and> neuron_parameters m = p \<and> times_grid m = ts \<and> I m = Is \<and> dt m = ts ! 1 - ts ! 0
     \<and> length (V m) = length ts \<and> V m ! 0 = E_L p
     \<and> (\<forall>i. 1 \<le> i \<and> i < length ts \<longrightarrow>
           V m ! i = (if spec_LIF_proposed m ns i > V_th p then V_reset p
                      else spec_LIF_proposed m ns i))
     \<and> num_fire m = int (length (filter (\<lambda>i. spec_LIF_proposed m ns i > V_th p) [1..<length ts]))
     \<and> stdout m = map (\<lambda>i. ts ! i) (filter (\<lambda>i. spec_LIF_proposed m ns i > V_th p) [1..<length ts])
     \<and> last_fire_time m =
         (if filter (\<lambda>i. spec_LIF_proposed m ns i > V_th p) [1..<length ts] = [] then None
          else Some (ts ! last (filter (\<lambda>i. spec_LIF_proposed m ns i > V_th p) [1..<length ts])))"
proof -
  note m0 = LIFModel_init_Inr [OF assms(1)]
  let ?ns = "map (\<lambda>k. normal k * sigma * sqrt (ts ! 1 - ts ! 0)) [0..<length ts]"
  from LIFModel_simulate_returns [OF assms(1,2)] obtain m
    where r: "LIFModel_simulate m0 = Returned m" and d: "LIF_steps_done m0 ?ns (length ts) m"
    by blast
  have f: "neuron_parameters m0 = p" "times_grid m0 = ts" "I m0 = Is" "dt m0 = ts ! 1 - ts ! 0"
      "noises m0 = Some ?ns" "length (V m0) = length ts" "V m0 ! 0 = E_L p" "num_fire m0 = 0"
      "stdout m0 = []" "last_fire_time m0 = None"
  proof -
    from m0(1) have "0 < length ts" by linarith
    then show "V m0 ! 0 = E_L p" by (simp add: m0(2))
  qed (simp_all add: m0(2))
  from d show ?thesis
    unfolding LIF_steps_done_def f foldl_Some_last
    using r f(5) by (intro exI [of _ m] exI [of _ ?ns]) simp
qed

text \<open>
  Claim C6, as stated, has the two voltage traces identical bit for bit. With
  \<open>E_L = -0.0\<close>, \<open>R_m = 1\<close>, \<open>C_m = -1\<close>, zero current and a step of 1, the Euler step from
  \<open>V[0] = -0.0\<close> is \<open>-0.0\<close>; adding the noise entry of a positive draw gives \<open>0.0\<close> and
  that of a negative draw \<open>-0.0\<close>: two seeds, two bit patterns for \<open>V[1]\<close>.
\<close>

theorem LIF_deterministic_counterexample:
  "LIFModel_V_new_bits (Zero True) 1 (- 1) 1 (Zero True) (Zero False) (noise_entry_sigma0 1)
     = Zero False
   \<and> LIFModel_V_new_bits (Zero True) 1 (- 1) 1 (Zero True) (Zero False) (noise_entry_sigma0 (- 1))
     = Zero True"
  by (simp add: LIFModel_V_new_bits_def noise_entry_sigma0_def f64_sub_def)

text \<open>
  Claim C6, amended. Two LIF models built from the same parameters (nonzero \<open>R_m\<close> and
  \<open>C_m\<close>, so that no division gives NaN), the same grid (with a first step that is not
  negative, so that \<^verbatim>\<open>np.sqrt(dt)\<close> is a number) and the same currents with
  \<open>noise_sigma = 0\<close> have the same numbers in every field whatever the random draws: the
  noise array is zero. So \<^verbatim>\<open>simulate\<close> has the same outcome on both, with voltage traces
  equal as numbers and equal \<open>num_fire\<close>.
\<close>

theorem LIF_deterministic_without_noise:
  assumes "LIFModel_init p ts Is 0 normal1 = Inr m1" and "LIFModel_init p ts Is 0 normal2 = Inr m2"
    and "ts ! 0 \<le> ts ! 1" and "R_m p \<noteq> 0" and "C_m p \<noteq> 0"
  shows "m1 = m2
     \<and> noises m1 = Some (replicate (length ts) 0)
     \<and> LIFModel_simulate m1 = LIFModel_simulate m2
     \<and> V (state_of (LIFModel_simulate m1)) = V (state_of (LIFModel_simulate m2))
     \<and> num_fire (state_of (LIFModel_simulate m1)) = num_fire (state_of (LIFModel_simulate m2))"
proof -
  have z: "map (\<lambda>k. 0::real) [0..<n] = replicate n 0" for n
    by (simp add: map_replicate_const)
  from LIFModel_init_Inr(2) [OF assms(1)] have 1: "noises m1 = Some (replicate (length ts) 0)"
    by (simp add: z)
  from LIFModel_init_Inr(2) [OF assms(1)] LIFModel_init_Inr(2) [OF assms(2)]
  have "m1 = m2" by (simp add: z)
  with 1 show ?thesis by simp
qed

lemma NeuronParameters_post_init_Inr:
  assumes "NeuronParameters_post_init given = Inr p"
  shows "R_m given \<noteq> 0" and "G_L p = 1 / R_m given" and "tau_m p = C_m given * R_m given"
    and "I_th p = 1 / R_m given * (V_th given - E_L given)"
    and "C_m p = C_m given" and "E_L p = E_L given" and "R_m p = R_m given"
    and "V_th p = V_th given" and "V_reset p = V_reset given"
proof -
  show nz: "R_m given \<noteq> 0"
    using assms by (auto simp: NeuronParameters_post_init_def py_truediv_def split: if_splits)
  from NeuronParameters_post_init_nonzero [OF nz] assms
  have p: "p = NeuronParameters_fields.extend given
                  (NeuronParameters.fields (1 / R_m given) (C_m given / (1 / R_m given))
                     (1 / R_m given * (V_th given - E_L given)))"
    by simp
  show "G_L p = 1 / R_m given" "tau_m p = C_m given * R_m given"
    "I_th p = 1 / R_m given * (V_th given - E_L given)"
    "C_m p = C_m given" "E_L p = E_L given" "R_m p = R_m given"
    "V_th p = V_th given" "V_reset p = V_reset given"
    unfolding p by (simp_all add: NeuronParameters_fields.defs NeuronParameters.defs)
qed

text \<open>
  Claim C5, amended. With \<open>noise_sigma = 0\<close>, a resting potential not above the
  threshold and zero input current, the sub-threshold current at which every operation of
  the Euler step is exact in floating point too, the voltage never exceeds \<open>V_th\<close> and
  \<open>num_fire\<close> is 0 after \<^verbatim>\<open>simulate\<close>, whatever the step size.
\<close>

theorem LIF_subthreshold_no_fire:
  assumes "LIFModel_init p ts Is 0 normal = Inr m0"
    and "length ts \<le> Suc (length Is)" and "\<forall>j<length Is. Is ! j = 0"
    and "E_L p \<le> V_th p"
  shows "\<exists>m. LIFModel_simulate m0 = Returned m \<and> num_fire m = 0
           \<and> (\<forall>i<length ts. \<not> V m ! i > V_th p)"
proof -
  note m0 = LIFModel_init_Inr [OF assms(1)]
  let ?ns = "map (\<lambda>k. normal k * 0 * sqrt (ts ! 1 - ts ! 0)) [0..<length ts]"
  from LIFModel_simulate_returns [OF assms(1,2)] obtain m
    where r: "LIFModel_simulate m0 = Returned m" and d: "LIF_steps_done m0 ?ns (length ts) m"
    by blast
  have f: "neuron_parameters m0 = p" "times_grid m0 = ts" "I m0 = Is" "num_fire m0 = 0"
    by (simp_all add: m0(2))
  from d have fr: "neuron_parameters m = p" "I m = Is" "dt m = dt m0"
    by (simp_all add: LIF_steps_done_def f)
  from m0(1) have "0 < length ts" by linarith
  then have V0: "V m0 ! 0 = E_L p" by (simp add: m0(2))
  from d have Vm0: "V m ! 0 = V m0 ! 0" by (simp add: LIF_steps_done_def)
  from d have rec: "V m ! i = (if spec_LIF_proposed m ?ns i > V_th p
                      then V_reset p else spec_LIF_proposed m ?ns i)"
    if "1 \<le> i" "i < length ts" for i
    using that by (simp add: LIF_steps_done_def f)
  have prop_eq: "spec_LIF_proposed m ?ns (Suc i) = E_L p"
    if "Suc i < length ts" "V m ! i = E_L p" for i
  proof -
    from that(1) assms(2) have "i < length Is" by simp
    with assms(3) have "Is ! i = 0" by simp
    moreover from that(1) have "?ns ! Suc i = 0" by simp
    ultimately show ?thesis
      using that(2) by (simp add: spec_LIF_proposed_def fr)
  qed
  have rest: "i < length ts \<Longrightarrow> V m ! i = E_L p" for i
  proof (induction i)
    case 0
    with Vm0 V0 show ?case by simp
  next
    case (Suc i)
    then have "V m ! i = E_L p" by simp
    from prop_eq [OF Suc.prems this] rec [of "Suc i"] Suc.prems assms(4) show ?case by simp
  qed
  have nofire: "\<not> spec_LIF_proposed m ?ns i > V_th p" if "i \<in> set [1..<length ts]" for i
  proof -
    from that have "1 \<le> i" "i < length ts" by simp_all
    then obtain j where j: "i = Suc j" "Suc j < length ts"
      by (cases i) simp_all
    then have "j < length ts" by simp
    from prop_eq [OF j(2) rest [OF this]] j(1) assms(4) show ?thesis by simp
  qed
  then have "filter (\<lambda>i. spec_LIF_proposed m ?ns i > V_th p) [1..<length ts] = []"
    by (simp only: filter_empty_conv) blast
  with d have "num_fire m = 0" by (simp add: LIF_steps_done_def f)
  moreover from rest assms(4) have "\<forall>i<length ts. \<not> V m ! i > V_th p" by simp
  ultimately show ?thesis using r by blast
qed

lemma unit_parameters:
  "\<exists>p. NeuronParameters_post_init (NeuronParameters_required 1 0 0 1 1 0) = Inr p
      \<and> C_m p = 1 \<and> E_L p = 0 \<and> R_m p = 1 \<and> V_th p = 1 \<and> V_reset p = 0
      \<and> G_L p = 1 \<and> tau_m p = 1 \<and> I_th p = 1"
proof -
  let ?g = "NeuronParameters_required 1 0 0 1 1 0"
  have g: "C_m ?g = 1" "E_L ?g = 0" "R_m ?g = 1" "V_th ?g = 1" "V_reset ?g = 0"
    by (simp_all add: NeuronParameters_required_def)
  then have "R_m ?g \<noteq> 0" by simp
  from NeuronParameters_post_init_nonzero [OF this]
  obtain p where p: "NeuronParameters_post_init ?g = Inr p" by blast
  from NeuronParameters_post_init_Inr [OF p] g p show ?thesis by simp
qed

lemma LIFModel_init_exists:
  assumes "2 \<le> length ts"
  shows "\<exists>m0. LIFModel_init p ts Is sigma normal = Inr m0"
proof -
  from assms have "length ts \<noteq> 0" "\<not> length ts \<le> 1" by linarith+
  then show ?thesis by (simp add: LIFModel_init_def BaseNeuronModel_post_init_def)
qed

lemma upt_1_3: "[1..<3] = [1, 2::nat]"
  by (simp add: upt_rec)

theorem LIFModel_simulate_spec_witness:
  "\<exists>p m0 m. NeuronParameters_post_init (NeuronParameters_required 1 0 0 1 1 0) = Inr p
     \<and> LIFModel_init p [0, 1, 2] [1, 0, 0] (1 / 2) real = Inr m0
     \<and> length [0, 1, 2::real] \<le> Suc (length [1, 0, 0::real])
     \<and> R_m p \<noteq> 0 \<and> C_m p \<noteq> 0 \<and> [0, 1, 2] ! 0 \<le> [0, 1, 2 :: real] ! 1
     \<and> LIFModel_simulate m0 = Returned m
     \<and> noises m = Some [0, 1 / 2, 1]
     \<and> V m ! 0 = 0 \<and> V m ! 1 = 0 \<and> V m ! 2 = 1
     \<and> num_fire m = 1 \<and> stdout m = [1] \<and> last_fire_time m = Some 1"
proof -
  let ?ts = "[0, 1, 2::real]" and ?Is = "[1, 0, 0::real]"
  from unit_parameters obtain p
    where p: "NeuronParameters_post_init (NeuronParameters_required 1 0 0 1 1 0) = Inr p"
      and v: "C_m p = 1" "E_L p = 0" "R_m p = 1" "V_th p = 1" "V_reset p = 0"
    by blast
  have "2 \<le> length ?ts" by simp
  from LIFModel_init_exists [OF this] obtain m0
    where m0: "LIFModel_init p ?ts ?Is (1 / 2) real = Inr m0" by blast
  have l: "length ?ts \<le> Suc (length ?Is)" by simp
  have u: "[0..<3] = [0, 1, 2::nat]" by (simp add: upt_rec)
  from LIFModel_init_Inr(2) [OF m0] have ns0: "noises m0 = Some [0, 1 / 2, 1]"
    by (simp add: u)
  have nz: "R_m p \<noteq> 0" "C_m p \<noteq> 0" by (simp_all add: v)
  have g: "?ts ! 0 \<le> ?ts ! 1" by simp
  from LIFModel_simulate_spec [OF m0 l nz g] obtain m ns
    where r: "LIFModel_simulate m0 = Returned m"
      and ns: "noises m0 = Some ns" "noises m = Some ns"
      and fr: "neuron_parameters m = p" "I m = ?Is" "dt m = ?ts ! 1 - ?ts ! 0" "V m ! 0 = E_L p"
      and rec: "\<forall>i. 1 \<le> i \<and> i < length ?ts \<longrightarrow>
           V m ! i = (if spec_LIF_proposed m ns i > V_th p then V_reset p
                      else spec_LIF_proposed m ns i)"
      and nf: "num_fire m = int (length (filter (\<lambda>i. spec_LIF_proposed m ns i > V_th p) [1..<length ?ts]))"
      and out: "stdout m = map (\<lambda>i. ?ts ! i) (filter (\<lambda>i. spec_LIF_proposed m ns i > V_th p) [1..<length ?ts])"
      and lft: "last_fire_time m =
         (if filter (\<lambda>i. spec_LIF_proposed m ns i > V_th p) [1..<length ?ts] = [] then None
          else Some (?ts ! last (filter (\<lambda>i. spec_LIF_proposed m ns i > V_th p) [1..<length ?ts])))"
    by blast
  from ns ns0 have nsv: "ns = [0, 1 / 2, 1]" by simp
  have V0: "V m ! 0 = 0" using fr(4) v by simp
  have p1: "spec_LIF_proposed m ns (Suc 0) = 3 / 2"
    by (simp add: spec_LIF_proposed_def fr(1-3) v V0 nsv)
  from rec have "V m ! Suc 0 = (if spec_LIF_proposed m ns (Suc 0) > V_th p then V_reset p
                      else spec_LIF_proposed m ns (Suc 0))" by simp
  then have V1: "V m ! Suc 0 = 0" by (simp add: p1 v)
  have p2: "spec_LIF_proposed m ns 2 = 1"
    using V1 by (simp add: spec_LIF_proposed_def fr(1-3) v nsv)
  from rec have "V m ! 2 = (if spec_LIF_proposed m ns 2 > V_th p then V_reset p
                      else spec_LIF_proposed m ns 2)" by simp
  then have V2: "V m ! 2 = 1" by (simp add: p2 v)
  have fl: "filter (\<lambda>i. spec_LIF_proposed m ns i > V_th p) [1..<length ?ts] = [1]"
  proof -
    from p2 have "spec_LIF_proposed m ns (Suc (Suc 0)) = 1" by (simp add: numeral_2_eq_2)
    then show ?thesis by (simp add: upt_1_3 p1 v)
  qed
  from nf out lft have "num_fire m = 1" "stdout m = [1]" "last_fire_time m = Some 1"
    unfolding fl by simp_all
  with p m0 l nz g r ns(2) nsv V0 V1 V2 show ?thesis
    by (intro exI [of _ p] exI [of _ m0] exI [of _ m]) simp
qed

text \<open>
  Claim C5, as stated, holds for every step size. With \<open>R_m = C_m = 1\<close>, \<open>E_L = 0\<close>,
  \<open>V_th = 1\<close> (so \<open>I_th = 1\<close> and \<open>tau_m = 1\<close>), the constant current \<open>0.9\<close> and the grid
  \<open>[0, 3]\<close>, the Euler step of length 3 overshoots to \<open>2.7 > V_th\<close>: the neuron fires once.
\<close>

theorem LIF_subthreshold_counterexample:
  "map_sum id I_th (NeuronParameters_post_init (NeuronParameters_required 1 0 0 1 1 0)) = Inr 1
   \<and> (9 / 10 :: real) < 1
   \<and> LIF_experiment (NeuronParameters_required 1 0 0 1 1 0) [0, 3] [9 / 10, 9 / 10] 0 real
       = Inr ([0, 0], 1)"
proof -
  from unit_parameters obtain p
    where p: "NeuronParameters_post_init (NeuronParameters_required 1 0 0 1 1 0) = Inr p"
      and v: "C_m p = 1" "E_L p = 0" "R_m p = 1" "V_th p = 1" "V_reset p = 0" "I_th p = 1"
    by blast
  let ?m0 = "\<lparr>neuron_parameters = p, times_grid = [0, 3], I = [9 / 10, 9 / 10],
               V = [0, 0], dt = 3, num_fire = 0, noise_sigma = 0, noises = Some [0, 0],
               last_fire_time = None, stdout = []\<rparr>"
  have u: "[0..<2] = [0, 1::nat]" by (simp add: upt_rec)
  have i: "LIFModel_init p [0, 3] [9 / 10, 9 / 10] 0 real = Inr ?m0"
    by (simp add: LIFModel_init_def BaseNeuronModel_post_init_def u v)
  have b: "LIFModel_simulate_body (Suc 0) ?m0 =
      Returned (?m0\<lparr>num_fire := 1, stdout := [3], last_fire_time := Some 3, V := [0, 0]\<rparr>)"
    by (simp add: LIFModel_simulate_body_def LIFModel_dvdt_def store_V_def v)
  have s: "LIFModel_simulate ?m0 =
      Returned (?m0\<lparr>num_fire := 1, stdout := [3], last_fire_time := Some 3, V := [0, 0]\<rparr>)"
    by (simp add: LIFModel_simulate_def upt_rec b)
  have "LIF_experiment (NeuronParameters_required 1 0 0 1 1 0) [0, 3] [9 / 10, 9 / 10] 0 real
       = Inr ([0, 0], 1)"
    by (simp add: LIF_experiment_def p i s)
  with p v(6) show ?thesis by simp
qed

theorem LIF_subthreshold_no_fire_witness:
  "\<exists>p m0 m. NeuronParameters_post_init (NeuronParameters_required 1 0 0 1 1 0) = Inr p
     \<and> LIFModel_init p [0, 3, 6] [0, 0, 0] 0 real = Inr m0
     \<and> length [0, 3, 6 :: real] \<le> Suc (length [0, 0, 0 :: real])
     \<and> (\<forall>j<length [0, 0, 0 :: real]. [0, 0, 0] ! j = (0 :: real))
     \<and> E_L p \<le> V_th p
     \<and> LIFModel_simulate m0 = Returned m \<and> num_fire m = 0
     \<and> \<not> V m ! 1 > V_th p \<and> \<not> V m ! 2 > V_th p"
proof -
  let ?ts = "[0, 3, 6::real]" and ?Is = "[0, 0, 0 :: real]"
  from unit_parameters obtain p
    where p: "NeuronParameters_post_init (NeuronParameters_required 1 0 0 1 1 0) = Inr p"
      and v: "E_L p = 0" "V_th p = 1"
    by blast
  have "2 \<le> length ?ts" by simp
  from LIFModel_init_exists [OF this] obtain m0
    where m0: "LIFModel_init p ?ts ?Is 0 real = Inr m0" by blast
  have h2: "length ?ts \<le> Suc (length ?Is)" by simp
  have h3: "\<forall>j<length ?Is. ?Is ! j = 0"
    by (simp add: nth_Cons split: nat.splits)
  have h4: "E_L p \<le> V_th p" by (simp add: v)
  from LIF_subthreshold_no_fire [OF m0 h2 h3 h4]
  obtain m where m: "LIFModel_simulate m0 = Returned m" "num_fire m = 0"
    "\<forall>i<length ?ts. \<not> V m ! i > V_th p" by blast
  from m(3) have "\<not> V m ! 1 > V_th p" "\<not> V m ! 2 > V_th p" by simp_all
  with p m0 h2 h3 h4 m(1,2) show ?thesis by blast
qed

theorem LIF_deterministic_without_noise_witness:
  "\<exists>p m1 m2. NeuronParameters_post_init (NeuronParameters_required 1 0 0 1 1 0) = Inr p
     \<and> LIFModel_init p [0, 1, 2] [1, 0, 0] 0 real = Inr m1
     \<and> LIFModel_init p [0, 1, 2] [1, 0, 0] 0 (\<lambda>k. - real k) = Inr m2
     \<and> [0, 1, 2] ! 0 \<le> [0, 1, 2 :: real] ! 1 \<and> R_m p \<noteq> 0 \<and> C_m p \<noteq> 0
     \<and> m1 = m2 \<and> noises m1 = Some [0, 0, 0]
     \<and> LIFModel_simulate m1 = LIFModel_simulate m2"
proof -
  let ?ts = "[0, 1, 2::real]" and ?Is = "[1, 0, 0::real]"
  from unit_parameters obtain p
    where p: "NeuronParameters_post_init (NeuronParameters_required 1 0 0 1 1 0) = Inr p"
      and v: "C_m p = 1" "R_m p = 1"
    by blast
  have "2 \<le> length ?ts" by simp
  from LIFModel_init_exists [OF this] obtain m1 m2
    where m: "LIFModel_init p ?ts ?Is 0 real = Inr m1"
      "LIFModel_init p ?ts ?Is 0 (\<lambda>k. - real k) = Inr m2" by blast
  have h: "?ts ! 0 \<le> ?ts ! 1" by simp
  have nz: "R_m p \<noteq> 0" "C_m p \<noteq> 0" by (simp_all add: v)
  have "replicate (length ?ts) (0::real) = [0, 0, 0]" by (simp add: numeral_3_eq_3)
  with LIF_deterministic_without_noise [OF m h nz] p m h nz show ?thesis by auto
qed

subsection \<open>The AELIF model\<close>

lemma AELIFModel_body_step:
  assumes i: "1 \<le> i" "i < length (V m)" "i \<le> length (I m)" "i < length (I_SRA_array m)"
      "i < length (spike_array m)" "i < length (times_grid m)"
    and par: "Delta_th (neuron_parameters m) = Some D" "a_param (neuron_parameters m) = Some a"
      "tau_SRA (neuron_parameters m) = Some tau" "V_max (neuron_parameters m) = Some vmax"
      "b_param (neuron_parameters m) = Some b"
  shows "AELIFModel_simulate_body i m =
     Returned (if spec_AELIF_euler_V m D i \<ge> vmax
       then m\<lparr>V := (V m)[i := V_reset (neuron_parameters m)],
              I_SRA_array := (I_SRA_array m)[i := spec_AELIF_euler_I_SRA m a tau i + b],
              num_fire := num_fire m + 1,
              isi_array := isi_array m @ [np_sub (times_grid m ! i) (last_spike_time m)],
              last_spike_time := Finite (times_grid m ! i),
              spike_array := (spike_array m)[i := 1]\<rparr>
       else m\<lparr>V := (V m)[i := spec_AELIF_euler_V m D i],
              I_SRA_array := (I_SRA_array m)[i := spec_AELIF_euler_I_SRA m a tau i]\<rparr>)"
proof -
  from i have pre: "\<not> length (V m) \<le> i - 1" "\<not> length (I m) \<le> i - 1"
      "\<not> length (I_SRA_array m) \<le> i - 1" "i - 1 \<noteq> i"
    by linarith+
  let ?m1 = "m\<lparr>V := (V m)[i := spec_AELIF_euler_V m D i]\<rparr>"
  let ?m2 = "?m1\<lparr>I_SRA_array := (I_SRA_array m)[i := spec_AELIF_euler_I_SRA m a tau i]\<rparr>"
  have dv: "AELIFModel_dvdt m (V m ! (i - 1)) (I m ! (i - 1)) (I_SRA_array m ! (i - 1)) =
      Inr ((G_L (neuron_parameters m)
                  * (E_L (neuron_parameters m) - V m ! (i - 1)
                     + D * exp ((V m ! (i - 1) - V_th (neuron_parameters m)) / D))
                - I_SRA_array m ! (i - 1) + I m ! (i - 1))
               / C_m (neuron_parameters m))"
    by (simp add: AELIFModel_dvdt_def par)
  have b1: "AELIFModel_simulate_body i m = AELIFModel_update_I_SRA i ?m1"
    using pre i(2) unfolding AELIFModel_simulate_body_def dv
    by (simp add: spec_AELIF_euler_V_def del: One_nat_def)
  have "V ?m1 ! (i - 1) = V m ! (i - 1)"
    using pre(4) by (simp del: One_nat_def)
  then have dI: "AELIFModel_dI_SRA_dt ?m1 (V ?m1 ! (i - 1)) (I_SRA_array ?m1 ! (i - 1)) =
      Inr ((a * (V m ! (i - 1) - E_L (neuron_parameters m)) - I_SRA_array m ! (i - 1)) / tau)"
    by (simp add: AELIFModel_dI_SRA_dt_def par del: One_nat_def)
  have b2: "AELIFModel_update_I_SRA i ?m1 = AELIFModel_spike_check i ?m2"
    using i(4) unfolding AELIFModel_update_I_SRA_def dI
    by (simp add: spec_AELIF_euler_I_SRA_def del: One_nat_def)
  have b3: "AELIFModel_spike_check i ?m2 =
     Returned (if spec_AELIF_euler_V m D i \<ge> vmax
       then m\<lparr>V := (V m)[i := V_reset (neuron_parameters m)],
              I_SRA_array := (I_SRA_array m)[i := spec_AELIF_euler_I_SRA m a tau i + b],
              num_fire := num_fire m + 1,
              isi_array := isi_array m @ [np_sub (times_grid m ! i) (last_spike_time m)],
              last_spike_time := Finite (times_grid m ! i),
              spike_array := (spike_array m)[i := 1]\<rparr>
       else m\<lparr>V := (V m)[i := spec_AELIF_euler_V m D i],
              I_SRA_array := (I_SRA_array m)[i := spec_AELIF_euler_I_SRA m a tau i]\<rparr>)"
    using i(2,4,5,6) by (simp add: AELIFModel_spike_check_def par Let_def)
  from b1 b2 b3 show ?thesis by simp
qed

lemma spec_AELIF_euler_cong:
  assumes "V m' ! (i - 1) = V m ! (i - 1)" and "I_SRA_array m' ! (i - 1) = I_SRA_array m ! (i - 1)"
    and "neuron_parameters m' = neuron_parameters m" and "I m' = I m" and "dt m' = dt m"
  shows "spec_AELIF_euler_V m' D i = spec_AELIF_euler_V m D i"
    and "spec_AELIF_euler_I_SRA m' a tau i = spec_AELIF_euler_I_SRA m a tau i"
  using assms by (simp_all add: spec_AELIF_euler_V_def spec_AELIF_euler_I_SRA_def)

lemma AELIF_steps_done_start: "AELIF_steps_done m0 D a tau vmax b 1 m0"
  by (simp add: AELIF_steps_done_def)

lemma AELIF_steps_done_step:
  assumes d: "AELIF_steps_done m0 D a tau vmax b n m" and n: "1 \<le> n" "n < length (V m0)"
      "n < length (I_SRA_array m0)" "n < length (spike_array m0)"
  defines "m' \<equiv> (if spec_AELIF_euler_V m D n \<ge> vmax
       then m\<lparr>V := (V m)[n := V_reset (neuron_parameters m)],
              I_SRA_array := (I_SRA_array m)[n := spec_AELIF_euler_I_SRA m a tau n + b],
              num_fire := num_fire m + 1,
              isi_array := isi_array m @ [np_sub (times_grid m ! n) (last_spike_time m)],
              last_spike_time := Finite (times_grid m ! n),
              spike_array := (spike_array m)[n := 1]\<rparr>
       else m\<lparr>V := (V m)[n := spec_AELIF_euler_V m D n],
              I_SRA_array := (I_SRA_array m)[n := spec_AELIF_euler_I_SRA m a tau n]\<rparr>)"
  shows "AELIF_steps_done m0 D a tau vmax b (Suc n) m'"
proof -
  let ?sp = "\<lambda>m i. spec_AELIF_euler_V m D i \<ge> vmax"
  let ?vr = "V_reset (neuron_parameters m0)"
  from d have fr: "neuron_parameters m = neuron_parameters m0" "times_grid m = times_grid m0"
      "I m = I m0" "dt m = dt m0" "noise_sigma m = noise_sigma m0" "noises m = noises m0"
      "last_fire_time m = last_fire_time m0" "stdout m = stdout m0"
      "length (V m) = length (V m0)" "length (I_SRA_array m) = length (I_SRA_array m0)"
      "length (spike_array m) = length (spike_array m0)"
    by (simp_all add: AELIF_steps_done_def)
  from d have "\<forall>i. i = 0 \<or> n \<le> i \<longrightarrow>
           V m ! i = V m0 ! i \<and> I_SRA_array m ! i = I_SRA_array m0 ! i
           \<and> spike_array m ! i = spike_array m0 ! i"
    unfolding AELIF_steps_done_def by (elim conjE) assumption
  then have old: "V m ! i = V m0 ! i" "I_SRA_array m ! i = I_SRA_array m0 ! i"
      "spike_array m ! i = spike_array m0 ! i" if "i = 0 \<or> n \<le> i" for i
    using that by blast+
  from d have rec: "V m ! i = (if ?sp m i then ?vr else spec_AELIF_euler_V m D i)"
      "I_SRA_array m ! i = (if ?sp m i then spec_AELIF_euler_I_SRA m a tau i + b
                            else spec_AELIF_euler_I_SRA m a tau i)"
      "spike_array m ! i = (if ?sp m i then 1 else spike_array m0 ! i)"
    if "1 \<le> i" "i < n" for i
  proof -
    from d have "\<forall>i. 1 \<le> i \<and> i < n \<longrightarrow>
           V m ! i = (if spec_AELIF_euler_V m D i \<ge> vmax then V_reset (neuron_parameters m0)
                      else spec_AELIF_euler_V m D i)
           \<and> I_SRA_array m ! i = (if spec_AELIF_euler_V m D i \<ge> vmax
                                  then spec_AELIF_euler_I_SRA m a tau i + b
                                  else spec_AELIF_euler_I_SRA m a tau i)
           \<and> spike_array m ! i = (if spec_AELIF_euler_V m D i \<ge> vmax then 1
                                  else spike_array m0 ! i)"
      unfolding AELIF_steps_done_def by (elim conjE) assumption
    with that show "V m ! i = (if ?sp m i then ?vr else spec_AELIF_euler_V m D i)"
      "I_SRA_array m ! i = (if ?sp m i then spec_AELIF_euler_I_SRA m a tau i + b
                            else spec_AELIF_euler_I_SRA m a tau i)"
      "spike_array m ! i = (if ?sp m i then 1 else spike_array m0 ! i)"
      by blast+
  qed
  have Vm': "V m' = (V m)[n := (if ?sp m n then ?vr else spec_AELIF_euler_V m D n)]"
    and Im': "I_SRA_array m' = (I_SRA_array m)[n := (if ?sp m n
                 then spec_AELIF_euler_I_SRA m a tau n + b else spec_AELIF_euler_I_SRA m a tau n)]"
    and Sm': "spike_array m' = (if ?sp m n then (spike_array m)[n := 1] else spike_array m)"
    by (simp_all add: m'_def fr)
  have fr': "neuron_parameters m' = neuron_parameters m0" "times_grid m' = times_grid m0"
      "I m' = I m0" "dt m' = dt m0" "noise_sigma m' = noise_sigma m0" "noises m' = noises m0"
      "last_fire_time m' = last_fire_time m0" "stdout m' = stdout m0"
    by (simp_all add: m'_def fr)
  have len': "length (V m') = length (V m0)" "length (I_SRA_array m') = length (I_SRA_array m0)"
      "length (spike_array m') = length (spike_array m0)"
    by (simp_all add: Vm' Im' Sm' fr)
  have keep: "V m' ! i = V m ! i" "I_SRA_array m' ! i = I_SRA_array m ! i"
      "spike_array m' ! i = spike_array m ! i" if "i \<noteq> n" for i
    using that by (simp_all add: Vm' Im' Sm')
  have new: "V m' ! n = (if ?sp m n then ?vr else spec_AELIF_euler_V m D n)"
      "I_SRA_array m' ! n = (if ?sp m n
                 then spec_AELIF_euler_I_SRA m a tau n + b else spec_AELIF_euler_I_SRA m a tau n)"
      "spike_array m' ! n = (if ?sp m n then 1 else spike_array m0 ! n)"
    using n(2,3,4) old [of n] by (simp_all add: Vm' Im' Sm' fr)
  have same: "spec_AELIF_euler_V m' D i = spec_AELIF_euler_V m D i"
      "spec_AELIF_euler_I_SRA m' a tau i = spec_AELIF_euler_I_SRA m a tau i"
    if "1 \<le> i" "i \<le> n" for i
  proof -
    from that have "i - 1 \<noteq> n" by simp
    then have k: "V m' ! (i - 1) = V m ! (i - 1)" "I_SRA_array m' ! (i - 1) = I_SRA_array m ! (i - 1)"
      by (rule keep)+
    have e: "neuron_parameters m' = neuron_parameters m" "I m' = I m" "dt m' = dt m"
      by (simp_all add: fr fr')
    show "spec_AELIF_euler_V m' D i = spec_AELIF_euler_V m D i"
      "spec_AELIF_euler_I_SRA m' a tau i = spec_AELIF_euler_I_SRA m a tau i"
      using k e by (rule spec_AELIF_euler_cong)+
  qed
  have filt: "filter (?sp m') [1..<n] = filter (?sp m) [1..<n]"
    by (rule filter_cong) (auto simp: same simp del: One_nat_def)
  have upt: "[1..<Suc n] = [1..<n] @ [n]" using n(1) by simp
  have filt': "filter (?sp m') [1..<Suc n]
     = filter (?sp m) [1..<n] @ (if ?sp m n then [n] else [])"
    unfolding upt using same(1) [of n] n(1) filt by (simp del: One_nat_def)
  have 1: "V m' ! i = V m0 ! i \<and> I_SRA_array m' ! i = I_SRA_array m0 ! i
           \<and> spike_array m' ! i = spike_array m0 ! i" if "i = 0 \<or> Suc n \<le> i" for i
  proof -
    from that n(1) have "i \<noteq> n" "i = 0 \<or> n \<le> i" by auto
    with keep [of i] old [of i] show ?thesis by simp
  qed
  have 2: "V m' ! i = (if ?sp m' i then ?vr else spec_AELIF_euler_V m' D i)
         \<and> I_SRA_array m' ! i = (if ?sp m' i then spec_AELIF_euler_I_SRA m' a tau i + b
                            else spec_AELIF_euler_I_SRA m' a tau i)
         \<and> spike_array m' ! i = (if ?sp m' i then 1 else spike_array m0 ! i)"
    if "1 \<le> i" "i < Suc n" for i
  proof (cases "i = n")
    case True
    with new same [of n] n(1) show ?thesis by simp
  next
    case False
    with that have "i < n" by simp
    from rec [OF that(1) this] keep [OF False] same [of i] that \<open>i < n\<close>
    show ?thesis by simp
  qed
  have 3: "num_fire m' = num_fire m0 + int (length (filter (?sp m') [1..<Suc n]))"
    using d unfolding filt' by (simp add: m'_def AELIF_steps_done_def)
  have 4: "length (isi_array m') = length (isi_array m0) + length (filter (?sp m') [1..<Suc n])"
    using d unfolding filt' by (simp add: m'_def AELIF_steps_done_def)
  have 5: "last_spike_time m' =
          foldl (\<lambda>t i. Finite (times_grid m0 ! i)) (last_spike_time m0) (filter (?sp m') [1..<Suc n])"
    using d unfolding filt' by (simp add: m'_def AELIF_steps_done_def)
  show ?thesis
    unfolding AELIF_steps_done_def
    using fr' len' 1 2 3 4 5 by (intro conjI allI impI) (simp_all del: One_nat_def)
qed

lemma AELIFModel_loop:
  assumes wf: "length (V m0) = length (times_grid m0)"
      "length (I_SRA_array m0) = length (times_grid m0)"
      "length (spike_array m0) = length (times_grid m0)"
      "length (times_grid m0) \<le> Suc (length (I m0))"
    and par: "Delta_th (neuron_parameters m0) = Some D" "a_param (neuron_parameters m0) = Some a"
      "tau_SRA (neuron_parameters m0) = Some tau" "V_max (neuron_parameters m0) = Some vmax"
      "b_param (neuron_parameters m0) = Some b"
    and n: "1 \<le> n" "n \<le> length (times_grid m0)"
  shows "\<exists>m. run_steps AELIFModel_simulate_body [1..<n] m0 = Returned m
           \<and> AELIF_steps_done m0 D a tau vmax b n m"
  using n
proof (induction n rule: dec_induct)
  case base
  show ?case using AELIF_steps_done_start by simp
next
  case (step n)
  then obtain m where r: "run_steps AELIFModel_simulate_body [1..<n] m0 = Returned m"
    and d: "AELIF_steps_done m0 D a tau vmax b n m" by auto
  from d have fr: "neuron_parameters m = neuron_parameters m0" "times_grid m = times_grid m0"
      "I m = I m0" "length (V m) = length (V m0)"
      "length (I_SRA_array m) = length (I_SRA_array m0)"
      "length (spike_array m) = length (spike_array m0)"
    by (simp_all add: AELIF_steps_done_def)
  from step.prems step.hyps wf have i: "1 \<le> n" "n < length (V m)" "n \<le> length (I m)"
      "n < length (I_SRA_array m)" "n < length (spike_array m)" "n < length (times_grid m)"
    by (simp_all add: fr)
  from par have par': "Delta_th (neuron_parameters m) = Some D"
      "a_param (neuron_parameters m) = Some a" "tau_SRA (neuron_parameters m) = Some tau"
      "V_max (neuron_parameters m) = Some vmax" "b_param (neuron_parameters m) = Some b"
    by (simp_all add: fr)
  note b = AELIFModel_body_step [OF i par']
  from i fr have "n < length (V m0)" "n < length (I_SRA_array m0)" "n < length (spike_array m0)"
    by simp_all
  note d' = AELIF_steps_done_step [OF d \<open>1 \<le> n\<close> this]
  from \<open>1 \<le> n\<close> have "[1..<Suc n] = [1..<n] @ [n]" by simp
  with b d' show ?case using run_steps_snoc [OF r, of n] by auto
qed

lemma AELIFModel_init_Inr:
  assumes "AELIFModel_init p ts Is sigma isi normal = Inr m0"
  shows "2 \<le> length ts"
    and "neuron_parameters m0 = p" and "times_grid m0 = ts" and "I m0 = Is"
    and "V m0 = (replicate (length ts) 0)[0 := E_L p]" and "dt m0 = ts ! 1 - ts ! 0"
    and "num_fire m0 = 0" and "I_SRA_array m0 = replicate (length ts) 0"
    and "last_spike_time m0 = NegInf"
    and "isi_array m0 = (case isi of None \<Rightarrow> [] | Some given \<Rightarrow> given)"
    and "spike_array m0 = replicate (length ts) 0"
proof -
  from assms obtain l where l: "LIFModel_init p ts Is sigma normal = Inr l"
    by (auto simp: AELIFModel_init_def split: sum.splits)
  note li = LIFModel_init_Inr [OF l]
  from assms l have m0: "m0 = \<lparr>neuron_parameters = neuron_parameters l, times_grid = times_grid l,
               I = I l, V = V l, dt = dt l, num_fire = num_fire l,
               noise_sigma = noise_sigma l, noises = noises l,
               last_fire_time = last_fire_time l, stdout = stdout l,
               I_SRA_array = replicate (length (times_grid l)) 0,
               last_spike_time = NegInf,
               isi_array = (case isi of None \<Rightarrow> [] | Some given \<Rightarrow> given),
               spike_array = replicate (length (times_grid l)) 0\<rparr>"
    by (simp add: AELIFModel_init_def)
  show "2 \<le> length ts" by (rule li(1))
  show "neuron_parameters m0 = p" "times_grid m0 = ts" "I m0 = Is"
    "V m0 = (replicate (length ts) 0)[0 := E_L p]" "dt m0 = ts ! 1 - ts ! 0"
    "num_fire m0 = 0" "I_SRA_array m0 = replicate (length ts) 0"
    "last_spike_time m0 = NegInf"
    "isi_array m0 = (case isi of None \<Rightarrow> [] | Some given \<Rightarrow> given)"
    "spike_array m0 = replicate (length ts) 0"
    unfolding m0 by (simp_all add: li(2))
qed

lemma AELIFModel_simulate_returns:
  assumes i: "AELIFModel_init p ts Is sigma isi normal = Inr m0" and l: "length ts \<le> Suc (length Is)"
    and par: "Delta_th p = Some D" "a_param p = Some a" "tau_SRA p = Some tau"
      "V_max p = Some vmax" "b_param p = Some b"
  shows "\<exists>m. AELIFModel_simulate m0 = Returned m
           \<and> AELIF_steps_done m0 D a tau vmax b (length ts) m"
proof -
  note m0 = AELIFModel_init_Inr [OF i]
  have wf: "length (V m0) = length (times_grid m0)"
      "length (I_SRA_array m0) = length (times_grid m0)"
      "length (spike_array m0) = length (times_grid m0)"
      "length (times_grid m0) \<le> Suc (length (I m0))"
    using l by (simp_all add: m0)
  have par': "Delta_th (neuron_parameters m0) = Some D" "a_param (neuron_parameters m0) = Some a"
      "tau_SRA (neuron_parameters m0) = Some tau" "V_max (neuron_parameters m0) = Some vmax"
      "b_param (neuron_parameters m0) = Some b"
    using par by (simp_all add: m0)
  from m0(1) have "1 \<le> length ts" by linarith
  then have n: "1 \<le> length ts" "length ts \<le> length (times_grid m0)"
    by (simp_all add: m0)
  from AELIFModel_loop [OF wf par' n] show ?thesis
    by (simp add: AELIFModel_simulate_def m0)
qed

text \<open>
  Claim C2, amended. For an AELIF model as constructed from parameters \<open>p\<close>, a grid
  \<open>ts\<close> and currents \<open>Is\<close>, with the optional parameters it reads given, nonzero
  divisors \<open>C_m\<close>, \<open>Delta_th\<close> and \<open>tau_SRA\<close> and at least \<open>N - 1\<close> input currents,
  \<^verbatim>\<open>simulate\<close> returns with parameters, grid, currents and step as given, \<open>V[0] = E_L\<close> and
  \<open>I_SRA_array[0] = 0\<close>, and at each step \<open>1 \<le> i \<le> N - 1\<close> of the final traces: \<open>V[i]\<close> is
  \<open>V_reset\<close> and \<open>I_SRA_array[i]\<close> is its Euler update plus \<open>b\<close> exactly when the unclipped
  Euler update of \<open>V[i]\<close> is at least \<open>V_max\<close>, and otherwise both are their Euler updates;
  \<open>spike_array[i]\<close> is 1 at those indices and 0 at the others; \<open>num_fire\<close> counts them.
  \<open>isi_array\<close> has grown by \<open>num_fire\<close> entries, so its length is \<open>num_fire\<close> when the
  constructor was given no \<open>isi_array\<close>.
\<close>

theorem AELIFModel_simulate_spec:
  assumes "AELIFModel_init p ts Is sigma isi normal = Inr m0" and "length ts \<le> Suc (length Is)"
    and "Delta_th p = Some D" and "a_param p = Some a" and "tau_SRA p = Some tau"
    and "V_max p = Some vmax" and "b_param p = Some b"
    and "C_m p \<noteq> 0" and "D \<noteq> 0" and "tau \<noteq> 0"
  shows "\<exists>m. AELIFModel_simulate m0 = Returned m
     \<and> neuron_parameters m = p \<and> times_grid m = ts \<and> I m = Is \<and> dt m = ts ! 1 - ts ! 0
     \<and> V m ! 0 = E_L p \<and> I_SRA_array m ! 0 = 0
     \<and> (\<forall>i. 1 \<le> i \<and> i < length ts \<longrightarrow>
           V m ! i = (if spec_AELIF_euler_V m D i \<ge> vmax then V_reset p
                      else spec_AELIF_euler_V m D i)
           \<and> I_SRA_array m ! i = (if spec_AELIF_euler_V m D i \<ge> vmax
                                  then spec_AELIF_euler_I_SRA m a tau i + b
                                  else spec_AELIF_euler_I_SRA m a tau i)
           \<and> spike_array m ! i = (if spec_AELIF_euler_V m D i \<ge> vmax then 1 else 0))
     \<and> spike_array m ! 0 = 0
     \<and> num_fire m = int (length (filter (\<lambda>i. spec_AELIF_euler_V m D i \<ge> vmax) [1..<length ts]))
     \<and> int (length (isi_array m))
          = int (length (case isi of None \<Rightarrow> [] | Some given \<Rightarrow> given)) + num_fire m
     \<and> (isi = None \<longrightarrow> int (length (isi_array m)) = num_fire m)"
proof -
  note m0 = AELIFModel_init_Inr [OF assms(1)]
  from AELIFModel_simulate_returns [OF assms(1-7)] obtain m
    where r: "AELIFModel_simulate m0 = Returned m"
      and d: "AELIF_steps_done m0 D a tau vmax b (length ts) m"
    by blast
  from m0(1) have pos: "0 < length ts" by linarith
  have z: "spike_array m0 ! i = 0" "I_SRA_array m0 ! i = 0" if "i < length ts" for i
    using that by (simp_all add: m0)
  from pos have V0: "V m0 ! 0 = E_L p" by (simp add: m0)
  from d have fr: "neuron_parameters m = p" "times_grid m = ts" "I m = Is" "dt m = ts ! 1 - ts ! 0"
    by (simp_all add: AELIF_steps_done_def m0)
  from d have rec: "\<forall>i. 1 \<le> i \<and> i < length ts \<longrightarrow>
           V m ! i = (if spec_AELIF_euler_V m D i \<ge> vmax then V_reset (neuron_parameters m0)
                      else spec_AELIF_euler_V m D i)
           \<and> I_SRA_array m ! i = (if spec_AELIF_euler_V m D i \<ge> vmax
                                  then spec_AELIF_euler_I_SRA m a tau i + b
                                  else spec_AELIF_euler_I_SRA m a tau i)
           \<and> spike_array m ! i = (if spec_AELIF_euler_V m D i \<ge> vmax then 1
                                  else spike_array m0 ! i)"
    unfolding AELIF_steps_done_def by (elim conjE) assumption
  from d have old: "\<forall>i. i = 0 \<or> length ts \<le> i \<longrightarrow>
           V m ! i = V m0 ! i \<and> I_SRA_array m ! i = I_SRA_array m0 ! i
           \<and> spike_array m ! i = spike_array m0 ! i"
    unfolding AELIF_steps_done_def by (elim conjE) assumption
  from d have nf: "num_fire m = num_fire m0
          + int (length (filter (\<lambda>i. spec_AELIF_euler_V m D i \<ge> vmax) [1..<length ts]))"
    unfolding AELIF_steps_done_def by (elim conjE) assumption
  from d have isi: "length (isi_array m) = length (isi_array m0)
          + length (filter (\<lambda>i. spec_AELIF_euler_V m D i \<ge> vmax) [1..<length ts])"
    unfolding AELIF_steps_done_def by (elim conjE) assumption
  have 1: "\<forall>i. 1 \<le> i \<and> i < length ts \<longrightarrow>
           V m ! i = (if spec_AELIF_euler_V m D i \<ge> vmax then V_reset p
                      else spec_AELIF_euler_V m D i)
           \<and> I_SRA_array m ! i = (if spec_AELIF_euler_V m D i \<ge> vmax
                                  then spec_AELIF_euler_I_SRA m a tau i + b
                                  else spec_AELIF_euler_I_SRA m a tau i)
           \<and> spike_array m ! i = (if spec_AELIF_euler_V m D i \<ge> vmax then 1 else 0)"
    using rec z(1) by (simp add: m0(2))
  from old z [OF pos] V0
  have 2: "spike_array m ! 0 = 0" "I_SRA_array m ! 0 = 0" "V m ! 0 = E_L p" by simp_all
  from nf have 3: "num_fire m = int (length (filter (\<lambda>i. spec_AELIF_euler_V m D i \<ge> vmax) [1..<length ts]))"
    by (simp add: m0)
  from isi 3 have 4: "int (length (isi_array m))
          = int (length (case isi of None \<Rightarrow> [] | Some given \<Rightarrow> given)) + num_fire m"
    by (simp add: m0)
  then have 5: "isi = None \<longrightarrow> int (length (isi_array m)) = num_fire m" by simp
  from r fr 1 2 3 4 5 show ?thesis by blast
qed

subsection \<open>What \<^verbatim>\<open>simulate\<close> leaves unchanged\<close>

lemma LIFModel_body_frame:
  assumes "1 \<le> i"
  shows "LIF_frame m (state_of (LIFModel_simulate_body i m))"
proof -
  from assms have "i \<noteq> 0" by simp
  then show ?thesis
    by (simp add: LIFModel_simulate_body_def store_V_def Let_def LIF_frame_def
        split: option.splits)
qed

lemma LIF_frame_trans:
  assumes "LIF_frame m m'" and "LIF_frame m' m''"
  shows "LIF_frame m m''"
  using assms by (simp add: LIF_frame_def)

lemma AELIF_frame_trans:
  assumes "AELIF_frame m m'" and "AELIF_frame m' m''"
  shows "AELIF_frame m m''"
  using assms by (simp add: AELIF_frame_def LIF_frame_def)

lemma AELIFModel_spike_check_frame:
  assumes "1 \<le> i"
  shows "AELIF_frame m (state_of (AELIFModel_spike_check i m))"
proof -
  from assms have "i \<noteq> 0" by simp
  then show ?thesis
    by (simp add: AELIFModel_spike_check_def Let_def AELIF_frame_def LIF_frame_def
        split: option.splits)
qed

lemma AELIFModel_update_I_SRA_frame:
  assumes "1 \<le> i"
  shows "AELIF_frame m (state_of (AELIFModel_update_I_SRA i m))"
proof (cases "AELIFModel_dI_SRA_dt m (V m ! (i - 1)) (I_SRA_array m ! (i - 1))")
  case (Inl e)
  then show ?thesis
    by (simp add: AELIFModel_update_I_SRA_def AELIF_frame_def LIF_frame_def)
next
  case (Inr dI)
  let ?m1 = "m\<lparr>I_SRA_array := (I_SRA_array m)[i := I_SRA_array m ! (i - 1) + dt m * dI]\<rparr>"
  from assms have "i \<noteq> 0" by simp
  then have 1: "AELIF_frame m ?m1" by (simp add: AELIF_frame_def LIF_frame_def)
  show ?thesis
  proof (cases "length (I_SRA_array m) \<le> i")
    case True
    with Inr show ?thesis
      by (simp add: AELIFModel_update_I_SRA_def AELIF_frame_def LIF_frame_def)
  next
    case False
    with Inr have "AELIFModel_update_I_SRA i m = AELIFModel_spike_check i ?m1"
      by (simp add: AELIFModel_update_I_SRA_def)
    with AELIF_frame_trans [OF 1 AELIFModel_spike_check_frame [OF assms, of ?m1]]
    show ?thesis by simp
  qed
qed

lemma AELIFModel_body_frame:
  assumes "1 \<le> i"
  shows "AELIF_frame m (state_of (AELIFModel_simulate_body i m))"
proof (cases "AELIFModel_dvdt m (V m ! (i - 1)) (I m ! (i - 1)) (I_SRA_array m ! (i - 1))")
  case (Inl e)
  then show ?thesis
    by (simp add: AELIFModel_simulate_body_def AELIF_frame_def LIF_frame_def)
next
  case (Inr dv)
  let ?m1 = "m\<lparr>V := (V m)[i := V m ! (i - 1) + dt m * dv]\<rparr>"
  from assms have "i \<noteq> 0" by simp
  then have 1: "AELIF_frame m ?m1" by (simp add: AELIF_frame_def LIF_frame_def)
  show ?thesis
  proof (cases "length (V m) \<le> i - 1 \<or> length (I m) \<le> i - 1
      \<or> length (I_SRA_array m) \<le> i - 1 \<or> length (V m) \<le> i")
    case True
    with Inr show ?thesis
      by (auto simp: AELIFModel_simulate_body_def AELIF_frame_def LIF_frame_def)
  next
    case False
    with Inr have "AELIFModel_simulate_body i m = AELIFModel_update_I_SRA i ?m1"
      by (simp add: AELIFModel_simulate_body_def)
    with AELIF_frame_trans [OF 1 AELIFModel_update_I_SRA_frame [OF assms, of ?m1]]
    show ?thesis by simp
  qed
qed

lemma LIFModel_simulate_frame: "LIF_frame m (state_of (LIFModel_simulate m))"
  unfolding LIFModel_simulate_def
proof (rule run_steps_state_of)
  show "LIF_frame m m" by (simp add: LIF_frame_def)
next
  fix i t
  assume "i \<in> set [1..<length (times_grid m)]" and t: "LIF_frame m t"
  then have "1 \<le> i" by simp
  from LIF_frame_trans [OF t LIFModel_body_frame [OF this]]
  show "LIF_frame m (state_of (LIFModel_simulate_body i t))" .
qed

lemma AELIFModel_simulate_frame: "AELIF_frame m (state_of (AELIFModel_simulate m))"
  unfolding AELIFModel_simulate_def
proof (rule run_steps_state_of)
  show "AELIF_frame m m" by (simp add: AELIF_frame_def LIF_frame_def)
next
  fix i t
  assume "i \<in> set [1..<length (times_grid m)]" and t: "AELIF_frame m t"
  then have "1 \<le> i" by simp
  from AELIF_frame_trans [OF t AELIFModel_body_frame [OF this]]
  show "AELIF_frame m (state_of (AELIFModel_simulate_body i t))" .
qed

text \<open>
  Claim C10. Whether \<^verbatim>\<open>simulate\<close> returns or raises, on a LIF model \<open>m\<close> and on an AELIF
  model \<open>a\<close> it leaves the parameters, the time grid, the input currents, the noise array
  and the step as they were, and does not write index 0 of the voltage trace (nor of the
  adaptation-current and spike arrays); so for a model as constructed \<open>V[0]\<close> is still
  \<open>E_L\<close> afterwards.
\<close>

theorem simulate_frame:
  "neuron_parameters (state_of (LIFModel_simulate m)) = neuron_parameters m
   \<and> times_grid (state_of (LIFModel_simulate m)) = times_grid m
   \<and> I (state_of (LIFModel_simulate m)) = I m
   \<and> noises (state_of (LIFModel_simulate m)) = noises m
   \<and> dt (state_of (LIFModel_simulate m)) = dt m
   \<and> V (state_of (LIFModel_simulate m)) ! 0 = V m ! 0
   \<and> neuron_parameters (state_of (AELIFModel_simulate a)) = neuron_parameters a
   \<and> times_grid (state_of (AELIFModel_simulate a)) = times_grid a
   \<and> I (state_of (AELIFModel_simulate a)) = I a
   \<and> noises (state_of (AELIFModel_simulate a)) = noises a
   \<and> dt (state_of (AELIFModel_simulate a)) = dt a
   \<and> V (state_of (AELIFModel_simulate a)) ! 0 = V a ! 0
   \<and> I_SRA_array (state_of (AELIFModel_simulate a)) ! 0 = I_SRA_array a ! 0
   \<and> spike_array (state_of (AELIFModel_simulate a)) ! 0 = spike_array a ! 0
   \<and> (LIFModel_init p ts Is sigma normal = Inr m \<longrightarrow>
         V (state_of (LIFModel_simulate m)) ! 0 = E_L p)
   \<and> (AELIFModel_init p ts Is sigma isi normal = Inr a \<longrightarrow>
         V (state_of (AELIFModel_simulate a)) ! 0 = E_L p)"
proof -
  note l = LIFModel_simulate_frame [of m, unfolded LIF_frame_def]
  note e = AELIFModel_simulate_frame [of a, unfolded AELIF_frame_def LIF_frame_def]
  have 1: "V m ! 0 = E_L p" if "LIFModel_init p ts Is sigma normal = Inr m"
  proof -
    from LIFModel_init_Inr(1) [OF that] have "0 < length ts" by linarith
    then show ?thesis by (simp add: LIFModel_init_Inr(2) [OF that])
  qed
  have 2: "V a ! 0 = E_L p" if "AELIFModel_init p ts Is sigma isi normal = Inr a"
  proof -
    from AELIFModel_init_Inr(1) [OF that] have "0 < length ts" by linarith
    then show ?thesis by (simp add: AELIFModel_init_Inr(5) [OF that])
  qed
  from l e 1 2 show ?thesis by simp
qed

lemma NeuronParameters_post_init_optional:
  assumes "NeuronParameters_post_init given = Inr p"
  shows "tau_SRA p = tau_SRA given" and "V_max p = V_max given" and "Delta_th p = Delta_th given"
    and "a_param p = a_param given" and "b_param p = b_param given"
proof -
  from NeuronParameters_post_init_Inr(1) [OF assms] have nz: "R_m given \<noteq> 0" .
  from NeuronParameters_post_init_nonzero [OF nz] assms
  have p: "p = NeuronParameters_fields.extend given
                  (NeuronParameters.fields (1 / R_m given) (C_m given / (1 / R_m given))
                     (1 / R_m given * (V_th given - E_L given)))"
    by simp
  show "tau_SRA p = tau_SRA given" "V_max p = V_max given" "Delta_th p = Delta_th given"
    "a_param p = a_param given" "b_param p = b_param given"
    unfolding p by (simp_all add: NeuronParameters_fields.defs NeuronParameters.defs)
qed

lemma AELIFModel_init_exists:
  assumes "2 \<le> length ts"
  shows "\<exists>m0. AELIFModel_init p ts Is sigma isi normal = Inr m0"
proof -
  from LIFModel_init_exists [OF assms] obtain l
    where "LIFModel_init p ts Is sigma normal = Inr l" by blast
  then show ?thesis by (simp add: AELIFModel_init_def)
qed

lemma adaptive_parameters:
  "\<exists>p. NeuronParameters_post_init
       ((NeuronParameters_required 1 0 0 1 0 0)
          \<lparr>tau_SRA := Some 1, V_max := Some 3, Delta_th := Some 1,
           a_param := Some 2, b_param := Some (1 / 2)\<rparr>) = Inr p
     \<and> C_m p = 1 \<and> E_L p = 0 \<and> R_m p = 1 \<and> V_th p = 0 \<and> V_reset p = 0 \<and> G_L p = 1
     \<and> Delta_th p = Some 1 \<and> a_param p = Some 2 \<and> tau_SRA p = Some 1
     \<and> V_max p = Some 3 \<and> b_param p = Some (1 / 2)"
proof -
  let ?g = "(NeuronParameters_required 1 0 0 1 0 0)
          \<lparr>tau_SRA := Some 1, V_max := Some 3, Delta_th := Some 1,
           a_param := Some 2, b_param := Some (1 / 2)\<rparr>"
  have g: "C_m ?g = 1" "E_L ?g = 0" "R_m ?g = 1" "V_th ?g = 0" "V_reset ?g = 0"
      "tau_SRA ?g = Some 1" "V_max ?g = Some 3" "Delta_th ?g = Some 1"
      "a_param ?g = Some 2" "b_param ?g = Some (1 / 2)"
    by (simp_all add: NeuronParameters_required_def)
  then have "R_m ?g \<noteq> 0" by simp
  from NeuronParameters_post_init_nonzero [OF this]
  obtain p where p: "NeuronParameters_post_init ?g = Inr p" by blast
  from NeuronParameters_post_init_Inr [OF p] g
  have v: "C_m p = 1" "E_L p = 0" "R_m p = 1" "V_th p = 0" "V_reset p = 0" "G_L p = 1"
    by simp_all
  from NeuronParameters_post_init_optional [OF p] g
  have par: "Delta_th p = Some 1" "a_param p = Some 2" "tau_SRA p = Some 1"
      "V_max p = Some 3" "b_param p = Some (1 / 2)"
    by simp_all
  from p v par show ?thesis by blast
qed

theorem AELIFModel_simulate_spec_witness:
  "\<exists>p m0 m. NeuronParameters_post_init
       ((NeuronParameters_required 1 0 0 1 0 0)
          \<lparr>tau_SRA := Some 1, V_max := Some 3, Delta_th := Some 1,
           a_param := Some 2, b_param := Some (1 / 2)\<rparr>) = Inr p
     \<and> AELIFModel_init p [0, 1, 2] [4, 0, 0] 0 None real = Inr m0
     \<and> length [0, 1, 2::real] \<le> Suc (length [4, 0, 0::real])
     \<and> Delta_th p = Some 1 \<and> a_param p = Some 2 \<and> tau_SRA p = Some 1
     \<and> V_max p = Some 3 \<and> b_param p = Some (1 / 2) \<and> C_m p \<noteq> 0 \<and> (1 :: real) \<noteq> 0
     \<and> AELIFModel_simulate m0 = Returned m
     \<and> V m ! 1 = 0 \<and> I_SRA_array m ! 1 = 1 / 2 \<and> spike_array m ! 1 = 1
     \<and> V m ! 2 = 1 / 2 \<and> I_SRA_array m ! 2 = 0 \<and> spike_array m ! 2 = 0
     \<and> num_fire m = 1 \<and> length (isi_array m) = 1"
proof -
  let ?ts = "[0, 1, 2::real]" and ?Is = "[4, 0, 0::real]"
  from adaptive_parameters obtain p
    where p: "NeuronParameters_post_init
       ((NeuronParameters_required 1 0 0 1 0 0)
          \<lparr>tau_SRA := Some 1, V_max := Some 3, Delta_th := Some 1,
           a_param := Some 2, b_param := Some (1 / 2)\<rparr>) = Inr p"
      and v: "C_m p = 1" "E_L p = 0" "R_m p = 1" "V_th p = 0" "V_reset p = 0" "G_L p = 1"
      and par: "Delta_th p = Some 1" "a_param p = Some 2" "tau_SRA p = Some 1"
        "V_max p = Some 3" "b_param p = Some (1 / 2)"
    by blast
  have "2 \<le> length ?ts" by simp
  from AELIFModel_init_exists [OF this] obtain m0
    where m0: "AELIFModel_init p ?ts ?Is 0 None real = Inr m0" by blast
  have l: "length ?ts \<le> Suc (length ?Is)" by simp
  have nz: "C_m p \<noteq> 0" "(1 :: real) \<noteq> 0" by (simp_all add: v)
  from AELIFModel_simulate_spec [OF m0 l par nz(1) nz(2) nz(2)] obtain m
    where r: "AELIFModel_simulate m0 = Returned m"
      and fr0: "neuron_parameters m = p" "I m = ?Is" "dt m = ?ts ! 1 - ?ts ! 0"
        "V m ! 0 = E_L p" "I_SRA_array m ! 0 = 0"
      and rec: "\<forall>i. 1 \<le> i \<and> i < length ?ts \<longrightarrow>
           V m ! i = (if spec_AELIF_euler_V m 1 i \<ge> 3 then V_reset p
                      else spec_AELIF_euler_V m 1 i)
           \<and> I_SRA_array m ! i = (if spec_AELIF_euler_V m 1 i \<ge> 3
                                  then spec_AELIF_euler_I_SRA m 2 1 i + 1 / 2
                                  else spec_AELIF_euler_I_SRA m 2 1 i)
           \<and> spike_array m ! i = (if spec_AELIF_euler_V m 1 i \<ge> 3 then 1 else 0)"
      and nf: "num_fire m = int (length (filter (\<lambda>i. spec_AELIF_euler_V m 1 i \<ge> 3) [1..<length ?ts]))"
      and isi: "(None :: npfloat list option) = None \<longrightarrow> int (length (isi_array m)) = num_fire m"
    by blast
  from fr0 v have fr: "neuron_parameters m = p" "I m = ?Is" "dt m = 1" "V m ! 0 = 0"
      "I_SRA_array m ! 0 = 0"
    by simp_all
  have e1: "spec_AELIF_euler_V m 1 (Suc 0) = 5" "spec_AELIF_euler_I_SRA m 2 1 (Suc 0) = 0"
    by (simp_all add: spec_AELIF_euler_V_def spec_AELIF_euler_I_SRA_def fr v)
  from rec have "V m ! Suc 0 = (if spec_AELIF_euler_V m 1 (Suc 0) \<ge> 3 then V_reset p
                      else spec_AELIF_euler_V m 1 (Suc 0))
           \<and> I_SRA_array m ! Suc 0 = (if spec_AELIF_euler_V m 1 (Suc 0) \<ge> 3
                                  then spec_AELIF_euler_I_SRA m 2 1 (Suc 0) + 1 / 2
                                  else spec_AELIF_euler_I_SRA m 2 1 (Suc 0))
           \<and> spike_array m ! Suc 0 = (if spec_AELIF_euler_V m 1 (Suc 0) \<ge> 3 then 1 else 0)"
    by simp
  then have s1: "V m ! Suc 0 = 0" "I_SRA_array m ! Suc 0 = 1 / 2" "spike_array m ! Suc 0 = 1"
    by (simp_all add: e1 v)
  have e2: "spec_AELIF_euler_V m 1 2 = 1 / 2" "spec_AELIF_euler_I_SRA m 2 1 2 = 0"
    by (simp_all add: spec_AELIF_euler_V_def spec_AELIF_euler_I_SRA_def fr v s1)
  from rec have "V m ! 2 = (if spec_AELIF_euler_V m 1 2 \<ge> 3 then V_reset p
                      else spec_AELIF_euler_V m 1 2)
           \<and> I_SRA_array m ! 2 = (if spec_AELIF_euler_V m 1 2 \<ge> 3
                                  then spec_AELIF_euler_I_SRA m 2 1 2 + 1 / 2
                                  else spec_AELIF_euler_I_SRA m 2 1 2)
           \<and> spike_array m ! 2 = (if spec_AELIF_euler_V m 1 2 \<ge> 3 then 1 else 0)"
    by simp
  then have s2: "V m ! 2 = 1 / 2" "I_SRA_array m ! 2 = 0" "spike_array m ! 2 = 0"
    by (simp_all add: e2)
  have fl: "filter (\<lambda>i. spec_AELIF_euler_V m 1 i \<ge> 3) [1..<length ?ts] = [1]"
  proof -
    from e2 have "spec_AELIF_euler_V m 1 (Suc (Suc 0)) = 1 / 2" by (simp add: numeral_2_eq_2)
    then show ?thesis by (simp add: upt_1_3 e1)
  qed
  from nf isi have n1: "num_fire m = 1" "length (isi_array m) = 1"
    unfolding fl by simp_all
  from p m0 l par nz r s1 s2 n1 show ?thesis
    by (intro exI [of _ p] exI [of _ m0] exI [of _ m]) simp
qed

text \<open>
  Claim C2, as stated, has \<open>len(isi_array) == num_fire\<close> after \<^verbatim>\<open>simulate\<close> on a freshly
  constructed model. \<open>isi_array\<close> is a constructor argument: a model constructed with
  \<open>isi_array = [1.0]\<close> that fires once ends with two entries.
\<close>

theorem AELIF_isi_array_counterexample:
  "AELIF_experiment
     ((NeuronParameters_required 1 0 0 1 0 0)
        \<lparr>tau_SRA := Some 1, V_max := Some 3, Delta_th := Some 1,
         a_param := Some 2, b_param := Some (1 / 2)\<rparr>)
     [0, 1] [4, 0] 0 (Some [Finite 1]) real
   = Inr (1, [Finite 1, PosInf])"
proof -
  let ?ts = "[0, 1::real]" and ?Is = "[4, 0::real]"
  from adaptive_parameters obtain p
    where p: "NeuronParameters_post_init
       ((NeuronParameters_required 1 0 0 1 0 0)
          \<lparr>tau_SRA := Some 1, V_max := Some 3, Delta_th := Some 1,
           a_param := Some 2, b_param := Some (1 / 2)\<rparr>) = Inr p"
      and v: "C_m p = 1" "E_L p = 0" "R_m p = 1" "V_th p = 0" "V_reset p = 0" "G_L p = 1"
      and par: "Delta_th p = Some 1" "a_param p = Some 2" "tau_SRA p = Some 1"
        "V_max p = Some 3" "b_param p = Some (1 / 2)"
    by blast
  have "2 \<le> length ?ts" by simp
  from AELIFModel_init_exists [OF this] obtain m0
    where m0: "AELIFModel_init p ?ts ?Is 0 (Some [Finite 1]) real = Inr m0" by blast
  note i0 = AELIFModel_init_Inr [OF m0]
  have f: "neuron_parameters m0 = p" "times_grid m0 = ?ts" "I m0 = ?Is" "V m0 = [0, 0]"
      "dt m0 = 1" "num_fire m0 = 0" "I_SRA_array m0 = [0, 0]" "last_spike_time m0 = NegInf"
      "isi_array m0 = [Finite 1]" "spike_array m0 = [0, 0]"
    by (simp_all add: i0 v numeral_2_eq_2)
  have e: "spec_AELIF_euler_V m0 1 (Suc 0) = 5"
    by (simp add: spec_AELIF_euler_V_def f v)
  have "AELIFModel_simulate_body (Suc 0) m0 =
     Returned (if spec_AELIF_euler_V m0 1 (Suc 0) \<ge> 3
       then m0\<lparr>V := (V m0)[Suc 0 := V_reset (neuron_parameters m0)],
              I_SRA_array := (I_SRA_array m0)[Suc 0 := spec_AELIF_euler_I_SRA m0 2 1 (Suc 0) + 1 / 2],
              num_fire := num_fire m0 + 1,
              isi_array := isi_array m0 @ [np_sub (times_grid m0 ! Suc 0) (last_spike_time m0)],
              last_spike_time := Finite (times_grid m0 ! Suc 0),
              spike_array := (spike_array m0)[Suc 0 := 1]\<rparr>
       else m0\<lparr>V := (V m0)[Suc 0 := spec_AELIF_euler_V m0 1 (Suc 0)],
              I_SRA_array := (I_SRA_array m0)[Suc 0 := spec_AELIF_euler_I_SRA m0 2 1 (Suc 0)]\<rparr>)"
    by (rule AELIFModel_body_step) (simp_all add: f par)
  then have b: "AELIFModel_simulate_body (Suc 0) m0 =
     Returned (m0\<lparr>V := (V m0)[Suc 0 := V_reset (neuron_parameters m0)],
              I_SRA_array := (I_SRA_array m0)[Suc 0 := spec_AELIF_euler_I_SRA m0 2 1 (Suc 0) + 1 / 2],
              num_fire := num_fire m0 + 1,
              isi_array := isi_array m0 @ [np_sub (times_grid m0 ! Suc 0) (last_spike_time m0)],
              last_spike_time := Finite (times_grid m0 ! Suc 0),
              spike_array := (spike_array m0)[Suc 0 := 1]\<rparr>)"
    by (simp add: e)
  have u: "[Suc 0..<2] = [Suc 0]" by (simp add: upt_rec)
  have s: "AELIFModel_simulate m0 =
     Returned (m0\<lparr>V := (V m0)[Suc 0 := V_reset (neuron_parameters m0)],
              I_SRA_array := (I_SRA_array m0)[Suc 0 := spec_AELIF_euler_I_SRA m0 2 1 (Suc 0) + 1 / 2],
              num_fire := num_fire m0 + 1,
              isi_array := isi_array m0 @ [np_sub (times_grid m0 ! Suc 0) (last_spike_time m0)],
              last_spike_time := Finite (times_grid m0 ! Suc 0),
              spike_array := (spike_array m0)[Suc 0 := 1]\<rparr>)"
    by (simp add: AELIFModel_simulate_def f(2) u b)
  show ?thesis
    by (simp add: AELIF_experiment_def p m0 s f)
qed

theorem simulate_frame_witness:
  "\<exists>p m a. NeuronParameters_post_init
       ((NeuronParameters_required 1 0 0 1 0 0)
          \<lparr>tau_SRA := Some 1, V_max := Some 3, Delta_th := Some 1,
           a_param := Some 2, b_param := Some (1 / 2)\<rparr>) = Inr p
     \<and> LIFModel_init p [0, 1, 2] [1, 0, 0] (1 / 2) real = Inr m
     \<and> AELIFModel_init p [0, 1, 2] [4, 0, 0] 0 None real = Inr a
     \<and> V (state_of (LIFModel_simulate m)) ! 0 = 0
     \<and> V (state_of (AELIFModel_simulate a)) ! 0 = 0
     \<and> times_grid (state_of (LIFModel_simulate m)) = [0, 1, 2]
     \<and> I (state_of (AELIFModel_simulate a)) = [4, 0, 0]"
proof -
  let ?ts = "[0, 1, 2::real]"
  from adaptive_parameters obtain p
    where p: "NeuronParameters_post_init
       ((NeuronParameters_required 1 0 0 1 0 0)
          \<lparr>tau_SRA := Some 1, V_max := Some 3, Delta_th := Some 1,
           a_param := Some 2, b_param := Some (1 / 2)\<rparr>) = Inr p"
      and v: "E_L p = 0"
    by blast
  have 2: "2 \<le> length ?ts" by simp
  from LIFModel_init_exists [OF 2] obtain m
    where m: "LIFModel_init p ?ts [1, 0, 0] (1 / 2) real = Inr m" by blast
  from AELIFModel_init_exists [OF 2] obtain a
    where a: "AELIFModel_init p ?ts [4, 0, 0] 0 None real = Inr a" by blast
  have tm: "times_grid m = ?ts" by (simp add: LIFModel_init_Inr(2) [OF m])
  have ia: "I a = [4, 0, 0]" by (simp add: AELIFModel_init_Inr(4) [OF a])
  have 1: "V (state_of (LIFModel_simulate m)) ! 0 = 0"
    "times_grid (state_of (LIFModel_simulate m)) = [0, 1, 2]"
    using simulate_frame [of m a p ?ts "[1, 0, 0]" "1 / 2" real None] m v tm by simp_all
  have 3: "V (state_of (AELIFModel_simulate a)) ! 0 = 0"
    "I (state_of (AELIFModel_simulate a)) = [4, 0, 0]"
    using simulate_frame [of m a p ?ts "[4, 0, 0]" 0 real None] a v ia by simp_all
  from p m a 1 3 show ?thesis
    by (intro exI [of _ p] exI [of _ m] exI [of _ a]) simp
qed

end
